theory Spec2Isabelle
  imports Complex_Main "HOL-Library.Word" "HOL-Library.Monad_Syntax"
begin

unbundle bit_operations_syntax

section \<open>IEEE-754 binary32 values and correctly rounded arithmetic\<close>

text \<open>
  The kernels compute on \<^verbatim>\<open>float\<close>.  A binary32 datum is a NaN, an infinity, a signed
  zero, or a non-zero finite number, which is kept as the rational it denotes.  The sign
  flag is \<open>True\<close> for a negative datum.  NaN payloads are not distinguished; apart from
  that, equality of two values of this type is equality of bit patterns.
\<close>

datatype f32 = NaN | Inf bool | Zero bool | Val rat

fun is_nan :: "f32 \<Rightarrow> bool" where
  "is_nan NaN = True"
| "is_nan _ = False"

fun is_inf :: "f32 \<Rightarrow> bool" where
  "is_inf (Inf _) = True"
| "is_inf _ = False"

fun is_zero :: "f32 \<Rightarrow> bool" where
  "is_zero (Zero _) = True"
| "is_zero (Val q) = (q = 0)"
| "is_zero _ = False"

fun sign_of :: "f32 \<Rightarrow> bool" where
  "sign_of NaN = False"
| "sign_of (Inf s) = s"
| "sign_of (Zero s) = s"
| "sign_of (Val q) = (q < 0)"

fun val_of :: "f32 \<Rightarrow> rat" where
  "val_of (Val q) = q"
| "val_of _ = 0"

subsection \<open>Rounding to nearest, ties to even\<close>

text \<open>
  \<open>exp_up\<close> and \<open>exp_down\<close> find the binade of a positive rational: the exponent \<open>e\<close>
  with \<open>2^e \<le> a < 2^(e+1)\<close>, kept within \<open>-126 .. 128\<close> (below \<open>2^-126\<close> the format
  is subnormal and the spacing no longer shrinks; from \<open>2^128\<close> on the result overflows).
\<close>

fun exp_up :: "nat \<Rightarrow> rat \<Rightarrow> int \<Rightarrow> int" where
  "exp_up 0 a e = e"
| "exp_up (Suc n) a e = (if 2 \<le> a then exp_up n (a / 2) (e + 1) else e)"

fun exp_down :: "nat \<Rightarrow> rat \<Rightarrow> int \<Rightarrow> int" where
  "exp_down 0 a e = e"
| "exp_down (Suc n) a e = (if a < 1 then exp_down n (a * 2) (e - 1) else e)"

definition binade :: "rat \<Rightarrow> int" where
  "binade a = (if 1 \<le> a then exp_up 128 a 0 else exp_down 126 a 0)"

text \<open>
  \<open>nearest_even f d\<close> chooses between the integer \<open>f\<close> and its successor for a
  number \<open>f + d\<close> with \<open>0 \<le> d < 1\<close>: the nearer one, and the even one at a tie.
\<close>

definition nearest_even :: "int \<Rightarrow> rat \<Rightarrow> int" where
  "nearest_even f d =
     (if d < 1 / 2 then f else if 1 / 2 < d then f + 1
      else if even f then f else f + 1)"

definition round_half_even :: "rat \<Rightarrow> int" where
  "round_half_even q = nearest_even \<lfloor>q\<rfloor> (q - of_int \<lfloor>q\<rfloor>)"

text \<open>
  \<open>pow2 k\<close> is the power \<open>2^k\<close> for an integer \<open>k\<close> of either sign.  The significand
  has 24 bits, so the spacing of binary32 numbers in the binade \<open>e\<close> is \<open>2^(e-23)\<close>;
  \<open>on_grid a u\<close> is the multiple of the spacing \<open>u\<close> nearest to \<open>a\<close>.
\<close>

definition pow2 :: "int \<Rightarrow> rat" where
  "pow2 k = (if 0 \<le> k then of_int (2 ^ nat k) else 1 / of_int (2 ^ nat (- k)))"

definition quantum :: "rat \<Rightarrow> rat" where
  "quantum a = pow2 (binade a - 23)"

definition on_grid :: "rat \<Rightarrow> rat \<Rightarrow> rat" where
  "on_grid a u = of_int (round_half_even (a / u)) * u"

text \<open>
  A magnitude that rounds to \<open>2^128\<close> or more is an infinity; one that rounds to
  nothing is a zero, which keeps the sign.
\<close>

definition pack :: "bool \<Rightarrow> rat \<Rightarrow> f32" where
  "pack neg r =
     (if pow2 128 \<le> r then Inf neg
      else if r = 0 then Zero neg
      else Val (if neg then - r else r))"

text \<open>
  \<open>round_mag a\<close> is the magnitude \<open>a\<close> rounded to the spacing of its binade.
  \<open>round32 s q\<close> is the binary32 datum nearest to the exact result \<open>q\<close>; \<open>s\<close> is the sign
  given to an exact zero.
\<close>

definition round_mag :: "rat \<Rightarrow> rat" where
  "round_mag a = on_grid a (quantum a)"

definition round32 :: "bool \<Rightarrow> rat \<Rightarrow> f32" where
  "round32 s q = (if q = 0 then Zero s else pack (q < 0) (round_mag \<bar>q\<bar>))"

subsection \<open>Operations\<close>

definition fneg :: "f32 \<Rightarrow> f32" where
  "fneg x = (case x of NaN \<Rightarrow> NaN | Inf s \<Rightarrow> Inf (\<not> s) | Zero s \<Rightarrow> Zero (\<not> s)
             | Val q \<Rightarrow> Val (- q))"

definition fmul :: "f32 \<Rightarrow> f32 \<Rightarrow> f32" where
  "fmul x y =
     (if is_nan x \<or> is_nan y then NaN
      else if (is_inf x \<and> is_zero y) \<or> (is_zero x \<and> is_inf y) then NaN
      else if is_inf x \<or> is_inf y then Inf (sign_of x \<noteq> sign_of y)
      else round32 (sign_of x \<noteq> sign_of y) (val_of x * val_of y))"

definition fadd :: "f32 \<Rightarrow> f32 \<Rightarrow> f32" where
  "fadd x y =
     (if is_nan x \<or> is_nan y then NaN
      else if is_inf x \<and> is_inf y then (if sign_of x = sign_of y then x else NaN)
      else if is_inf x then x
      else if is_inf y then y
      else round32 (sign_of x \<and> sign_of y) (val_of x + val_of y))"

definition fsub :: "f32 \<Rightarrow> f32 \<Rightarrow> f32" where
  "fsub x y = fadd x (fneg y)"

definition fdiv :: "f32 \<Rightarrow> f32 \<Rightarrow> f32" where
  "fdiv x y =
     (if is_nan x \<or> is_nan y then NaN
      else if (is_inf x \<and> is_inf y) \<or> (is_zero x \<and> is_zero y) then NaN
      else if is_inf x \<or> is_zero y then Inf (sign_of x \<noteq> sign_of y)
      else if is_inf y then Zero (sign_of x \<noteq> sign_of y)
      else round32 (sign_of x \<noteq> sign_of y) (val_of x / val_of y))"

text \<open>\<^verbatim>\<open>__fmaf_rn(a, b, c)\<close>: \<open>a * b + c\<close> with one rounding.\<close>

definition fmaf_rn :: "f32 \<Rightarrow> f32 \<Rightarrow> f32 \<Rightarrow> f32" where
  "fmaf_rn a b c =
     (let sp = (sign_of a \<noteq> sign_of b)
      in if is_nan a \<or> is_nan b \<or> is_nan c then NaN
         else if (is_inf a \<and> is_zero b) \<or> (is_zero a \<and> is_inf b) then NaN
         else if is_inf a \<or> is_inf b
              then (if is_inf c \<and> sign_of c \<noteq> sp then NaN else Inf sp)
         else if is_inf c then c
         else round32 (sp \<and> sign_of c) (val_of a * val_of b + val_of c))"

text \<open>Conversion of an \<^verbatim>\<open>int\<close> to \<^verbatim>\<open>float\<close>.\<close>

definition i2f :: "int \<Rightarrow> f32" where
  "i2f i = round32 False (of_int i)"

text \<open>
  The IEEE comparison \<open><\<close>: false as soon as one side is a NaN, and the two zeros are
  equal.
\<close>

fun fless :: "f32 \<Rightarrow> f32 \<Rightarrow> bool" where
  "fless NaN _ = False"
| "fless _ NaN = False"
| "fless (Inf s) (Inf t) = (s \<and> \<not> t)"
| "fless (Inf s) _ = s"
| "fless _ (Inf t) = (\<not> t)"
| "fless x y = (val_of x < val_of y)"

definition fle :: "f32 \<Rightarrow> f32 \<Rightarrow> bool" where
  "fle x y = (\<not> is_nan x \<and> \<not> is_nan y \<and> \<not> fless y x)"

text \<open>
  \<^verbatim>\<open>fmaxf\<close> and \<^verbatim>\<open>fminf\<close> of the CUDA math library: a NaN argument is treated as
  missing, so the other argument is returned; of the two zeros, \<open>+0\<close> is the greater.
\<close>

definition fmaxf :: "f32 \<Rightarrow> f32 \<Rightarrow> f32" where
  "fmaxf x y =
     (if is_nan x then y else if is_nan y then x
      else if is_zero x \<and> is_zero y then Zero (sign_of x \<and> sign_of y)
      else if fless x y then y else x)"

definition fminf :: "f32 \<Rightarrow> f32 \<Rightarrow> f32" where
  "fminf x y =
     (if is_nan x then y else if is_nan y then x
      else if is_zero x \<and> is_zero y then Zero (sign_of x \<or> sign_of y)
      else if fless y x then y else x)"

text \<open>A decimal literal with suffix \<^verbatim>\<open>f\<close> is the nearest binary32 value.\<close>

definition flit :: "rat \<Rightarrow> f32" where
  "flit q = round32 False q"


section \<open>C integers and device buffers\<close>

text \<open>
  \<^verbatim>\<open>int\<close> is 32 bits wide.  Signed overflow is undefined in C, and so is an access outside
  the buffer a pointer refers to; both are the result \<open>None\<close>.
\<close>

definition in_int :: "int \<Rightarrow> bool" where
  "in_int i \<longleftrightarrow> - 2147483648 \<le> i \<and> i \<le> 2147483647"

definition c_int :: "int \<Rightarrow> int option" where
  "c_int i = (if in_int i then Some i else None)"

definition c_add :: "int \<Rightarrow> int \<Rightarrow> int option" where
  "c_add a b = c_int (a + b)"

definition c_sub :: "int \<Rightarrow> int \<Rightarrow> int option" where
  "c_sub a b = c_int (a - b)"

definition c_mul :: "int \<Rightarrow> int \<Rightarrow> int option" where
  "c_mul a b = c_int (a * b)"

text \<open>The remainder \<^verbatim>\<open>a % b\<close> of C truncates towards zero.\<close>

definition c_rem :: "int \<Rightarrow> int \<Rightarrow> int" where
  "c_rem a b = a - b * (sgn a * sgn b * (\<bar>a\<bar> div \<bar>b\<bar>))"

definition read_u16 :: "16 word list \<Rightarrow> int \<Rightarrow> 16 word option" where
  "read_u16 buf i = (if 0 \<le> i \<and> i < int (length buf) then Some (buf ! nat i) else None)"

definition read_f32 :: "f32 list \<Rightarrow> int \<Rightarrow> f32 option" where
  "read_f32 buf i = (if 0 \<le> i \<and> i < int (length buf) then Some (buf ! nat i) else None)"

text \<open>
  A kernel thread only writes to the output buffer and never reads it, so the effect of
  a thread is the list of its stores \<open>(index, value)\<close>, in program order.  \<open>out_len\<close> is
  the number of floats the output pointer refers to.
\<close>

type_synonym store = "int \<times> f32"

definition write_f32 :: "nat \<Rightarrow> int \<Rightarrow> f32 \<Rightarrow> store option" where
  "write_f32 out_len i v = (if 0 \<le> i \<and> i < int out_len then Some (i, v) else None)"

fun apply_stores :: "f32 list \<Rightarrow> store list \<Rightarrow> f32 list" where
  "apply_stores out [] = out"
| "apply_stores out ((i, v) # ws) = apply_stores (out[nat i := v]) ws"

section \<open>debayer\_rggb\_bilinear.cu: the kernel with bit tests, FMA and reciprocal\<close>

text \<open>\<^verbatim>\<open>#define PIX(in, x, y, w) in[(x) + (y) * (w)]\<close>\<close>

definition PIX :: "16 word list \<Rightarrow> int \<Rightarrow> int \<Rightarrow> int \<Rightarrow> 16 word option" where
  "PIX inp x y w = do { yw \<leftarrow> c_mul y w; i \<leftarrow> c_add x yw; read_u16 inp i }"

definition normalize_pixel :: "16 word \<Rightarrow> int \<Rightarrow> f32 \<Rightarrow> f32 option" where
  "normalize_pixel val black inv_range =
     do { v \<leftarrow> c_sub (uint val) black;
          Some (fmaxf (fmul (i2f v) inv_range) (flit 0)) }"

text \<open>The expression \<^verbatim>\<open>normalize_pixel(PIX(in, x, y, w), black, inv_range)\<close>.\<close>

definition norm_pix ::
  "16 word list \<Rightarrow> int \<Rightarrow> int \<Rightarrow> int \<Rightarrow> int \<Rightarrow> f32 \<Rightarrow> f32 option" where
  "norm_pix inp x y w black inv_range =
     do { p \<leftarrow> PIX inp x y w; normalize_pixel p black inv_range }"

definition get_red ::
  "16 word list \<Rightarrow> int \<Rightarrow> int \<Rightarrow> int \<Rightarrow> int \<Rightarrow> f32 \<Rightarrow> f32 option" where
  "get_red inp x y w black inv_range =
     (let x_odd = x AND 1; y_odd = y AND 1
      in if x_odd = 0 \<and> y_odd = 0 then
           norm_pix inp x y w black inv_range
         else if x_odd \<noteq> 0 \<and> y_odd = 0 then
           do { xm \<leftarrow> c_sub x 1;
                xp \<leftarrow> c_add x 1;
                a \<leftarrow> norm_pix inp xm y w black inv_range;
                b \<leftarrow> norm_pix inp xp y w black inv_range;
                Some (fmul (fadd a b) (flit (1 / 2))) }
         else if x_odd = 0 \<and> y_odd \<noteq> 0 then
           do { ym \<leftarrow> c_sub y 1;
                yp \<leftarrow> c_add y 1;
                a \<leftarrow> norm_pix inp x ym w black inv_range;
                b \<leftarrow> norm_pix inp x yp w black inv_range;
                Some (fmul (fadd a b) (flit (1 / 2))) }
         else
           do { xm \<leftarrow> c_sub x 1;
                ym \<leftarrow> c_sub y 1;
                xp \<leftarrow> c_add x 1;
                yp \<leftarrow> c_add y 1;
                a \<leftarrow> norm_pix inp xm ym w black inv_range;
                b \<leftarrow> norm_pix inp xp ym w black inv_range;
                c \<leftarrow> norm_pix inp xm yp w black inv_range;
                d \<leftarrow> norm_pix inp xp yp w black inv_range;
                Some (fmul (fadd (fadd (fadd a b) c) d) (flit (1 / 4))) })"

definition get_green ::
  "16 word list \<Rightarrow> int \<Rightarrow> int \<Rightarrow> int \<Rightarrow> int \<Rightarrow> f32 \<Rightarrow> f32 option" where
  "get_green inp x y w black inv_range =
     do { s \<leftarrow> c_add x y;
          if s AND 1 \<noteq> 0 then
            norm_pix inp x y w black inv_range
          else
            do { xm \<leftarrow> c_sub x 1;
                 xp \<leftarrow> c_add x 1;
                 ym \<leftarrow> c_sub y 1;
                 yp \<leftarrow> c_add y 1;
                 a \<leftarrow> norm_pix inp xm y w black inv_range;
                 b \<leftarrow> norm_pix inp xp y w black inv_range;
                 c \<leftarrow> norm_pix inp x ym w black inv_range;
                 d \<leftarrow> norm_pix inp x yp w black inv_range;
                 Some (fmul (fadd (fadd (fadd a b) c) d) (flit (1 / 4))) } }"

definition get_blue ::
  "16 word list \<Rightarrow> int \<Rightarrow> int \<Rightarrow> int \<Rightarrow> int \<Rightarrow> f32 \<Rightarrow> f32 option" where
  "get_blue inp x y w black inv_range =
     (let x_odd = x AND 1; y_odd = y AND 1
      in if x_odd \<noteq> 0 \<and> y_odd \<noteq> 0 then
           norm_pix inp x y w black inv_range
         else if x_odd = 0 \<and> y_odd \<noteq> 0 then
           do { xm \<leftarrow> c_sub x 1;
                xp \<leftarrow> c_add x 1;
                a \<leftarrow> norm_pix inp xm y w black inv_range;
                b \<leftarrow> norm_pix inp xp y w black inv_range;
                Some (fmul (fadd a b) (flit (1 / 2))) }
         else if x_odd \<noteq> 0 \<and> y_odd = 0 then
           do { ym \<leftarrow> c_sub y 1;
                yp \<leftarrow> c_add y 1;
                a \<leftarrow> norm_pix inp x ym w black inv_range;
                b \<leftarrow> norm_pix inp x yp w black inv_range;
                Some (fmul (fadd a b) (flit (1 / 2))) }
         else
           do { xm \<leftarrow> c_sub x 1;
                ym \<leftarrow> c_sub y 1;
                xp \<leftarrow> c_add x 1;
                yp \<leftarrow> c_add y 1;
                a \<leftarrow> norm_pix inp xm ym w black inv_range;
                b \<leftarrow> norm_pix inp xp ym w black inv_range;
                c \<leftarrow> norm_pix inp xm yp w black inv_range;
                d \<leftarrow> norm_pix inp xp yp w black inv_range;
                Some (fmul (fadd (fadd (fadd a b) c) d) (flit (1 / 4))) })"

text \<open>
  One thread of \<^verbatim>\<open>debayer16_to_xyz\<close>; \<open>x\<close> and \<open>y\<close> are the thread's coordinates
  \<^verbatim>\<open>blockDim.x * blockIdx.x + threadIdx.x\<close> and \<^verbatim>\<open>blockDim.y * blockIdx.y + threadIdx.y\<close>.
  The conditions of the border test are evaluated left to right, as \<^verbatim>\<open>||\<close> does.
\<close>

definition debayer16_to_xyz ::
  "16 word list \<Rightarrow> nat \<Rightarrow> int \<Rightarrow> int \<Rightarrow> f32 \<Rightarrow> f32 \<Rightarrow> f32 \<Rightarrow> int \<Rightarrow> int \<Rightarrow> f32 list
     \<Rightarrow> int \<Rightarrow> int \<Rightarrow> store list option" where
  "debayer16_to_xyz inp out_len width height wb_r wb_g wb_b black_level white_level
       cam_to_xyz x y =
     (if x < 1 then Some [] else
      do { w1 \<leftarrow> c_sub width 1;
      if x \<ge> w1 then Some [] else
      if y < 1 then Some [] else
      do { h1 \<leftarrow> c_sub height 1;
      if y \<ge> h1 then Some [] else
      do { rng \<leftarrow> c_sub white_level black_level;
           let inv_range = fdiv (flit 1) (i2f rng);
           r \<leftarrow> get_red inp x y width black_level inv_range;
           let cam_r = fmul r wb_r;
           g \<leftarrow> get_green inp x y width black_level inv_range;
           let cam_g = fmul g wb_g;
           b \<leftarrow> get_blue inp x y width black_level inv_range;
           let cam_b = fmul b wb_b;
           m0 \<leftarrow> read_f32 cam_to_xyz 0;
           m1 \<leftarrow> read_f32 cam_to_xyz 1;
           m2 \<leftarrow> read_f32 cam_to_xyz 2;
           m3 \<leftarrow> read_f32 cam_to_xyz 3;
           let xyz_x = fmaf_rn m0 cam_r (fmaf_rn m1 cam_g (fmaf_rn m2 cam_b m3));
           m4 \<leftarrow> read_f32 cam_to_xyz 4;
           m5 \<leftarrow> read_f32 cam_to_xyz 5;
           m6 \<leftarrow> read_f32 cam_to_xyz 6;
           m7 \<leftarrow> read_f32 cam_to_xyz 7;
           let xyz_y = fmaf_rn m4 cam_r (fmaf_rn m5 cam_g (fmaf_rn m6 cam_b m7));
           m8 \<leftarrow> read_f32 cam_to_xyz 8;
           m9 \<leftarrow> read_f32 cam_to_xyz 9;
           m10 \<leftarrow> read_f32 cam_to_xyz 10;
           m11 \<leftarrow> read_f32 cam_to_xyz 11;
           let xyz_z = fmaf_rn m8 cam_r (fmaf_rn m9 cam_g (fmaf_rn m10 cam_b m11));
           let exposure = flit (35 / 10);
           let srgb_r = fmul (fmaf_rn (flit (32404542 / 10000000)) xyz_x
                          (fmaf_rn (fneg (flit (15371385 / 10000000))) xyz_y
                             (fmul (fneg (flit (4985314 / 10000000))) xyz_z))) exposure;
           let srgb_g = fmul (fmaf_rn (fneg (flit (9692660 / 10000000))) xyz_x
                          (fmaf_rn (flit (18760108 / 10000000)) xyz_y
                             (fmul (flit (415560 / 10000000)) xyz_z))) exposure;
           let srgb_b = fmul (fmaf_rn (flit (556434 / 10000000)) xyz_x
                          (fmaf_rn (fneg (flit (2040259 / 10000000))) xyz_y
                             (fmul (flit (10572252 / 10000000)) xyz_z))) exposure;
           yw \<leftarrow> c_mul y width;
           p \<leftarrow> c_add yw x;
           idx \<leftarrow> c_mul p 3;
           s0 \<leftarrow> write_f32 out_len idx (fminf (fmaxf srgb_r (flit 0)) (flit 1));
           idx1 \<leftarrow> c_add idx 1;
           s1 \<leftarrow> write_f32 out_len idx1 (fminf (fmaxf srgb_g (flit 0)) (flit 1));
           idx2 \<leftarrow> c_add idx 2;
           s2 \<leftarrow> write_f32 out_len idx2 (fminf (fmaxf srgb_b (flit 0)) (flit 1));
           Some [s0, s1, s2] } } })"

section \<open>debayer\_rggb\_bilinear.cu: the kernel with remainders, closures and division\<close>

text \<open>
  The file holds a second set of \<^verbatim>\<open>get_red\<close>, \<^verbatim>\<open>get_green\<close>, \<^verbatim>\<open>get_blue\<close> and
  \<^verbatim>\<open>debayer16_to_xyz\<close>; the names of this set carry the suffix \<open>_plain\<close>.  Every
  operator of the source rounds on its own (no contraction of \<^verbatim>\<open>a * b + c\<close>).
  \<open>normalize\<close> is the closure \<^verbatim>\<open>[black, range](uint16_t val)\<close> that each of the three
  helpers declares (its \<^verbatim>\<open>range\<close> is written \<open>range_f\<close>); \<open>normalize_at\<close> is \<^verbatim>\<open>normalize(PIX(in, x, y, w))\<close>.
\<close>

definition normalize :: "int \<Rightarrow> f32 \<Rightarrow> 16 word \<Rightarrow> f32 option" where
  "normalize black range_f val =
     do { v \<leftarrow> c_sub (uint val) black;
          let v = (if v < 0 then 0 else v);
          Some (fdiv (i2f v) range_f) }"

definition normalize_at ::
  "16 word list \<Rightarrow> int \<Rightarrow> int \<Rightarrow> int \<Rightarrow> int \<Rightarrow> f32 \<Rightarrow> f32 option" where
  "normalize_at inp x y w black range_f =
     do { p \<leftarrow> PIX inp x y w; normalize black range_f p }"

definition get_red_plain ::
  "16 word list \<Rightarrow> int \<Rightarrow> int \<Rightarrow> int \<Rightarrow> int \<Rightarrow> f32 \<Rightarrow> f32 option" where
  "get_red_plain inp x y w black range_f =
     (if c_rem x 2 = 0 \<and> c_rem y 2 = 0 then
        normalize_at inp x y w black range_f
      else if c_rem x 2 = 1 \<and> c_rem y 2 = 0 then
        do { xm \<leftarrow> c_sub x 1;
             xp \<leftarrow> c_add x 1;
             a \<leftarrow> normalize_at inp xm y w black range_f;
             b \<leftarrow> normalize_at inp xp y w black range_f;
             Some (fdiv (fadd a b) (flit 2)) }
      else if c_rem x 2 = 0 \<and> c_rem y 2 = 1 then
        do { ym \<leftarrow> c_sub y 1;
             yp \<leftarrow> c_add y 1;
             a \<leftarrow> normalize_at inp x ym w black range_f;
             b \<leftarrow> normalize_at inp x yp w black range_f;
             Some (fdiv (fadd a b) (flit 2)) }
      else
        do { xm \<leftarrow> c_sub x 1;
             ym \<leftarrow> c_sub y 1;
             xp \<leftarrow> c_add x 1;
             yp \<leftarrow> c_add y 1;
             a \<leftarrow> normalize_at inp xm ym w black range_f;
             b \<leftarrow> normalize_at inp xp ym w black range_f;
             c \<leftarrow> normalize_at inp xm yp w black range_f;
             d \<leftarrow> normalize_at inp xp yp w black range_f;
             Some (fdiv (fadd (fadd (fadd a b) c) d) (flit 4)) })"

definition get_green_plain ::
  "16 word list \<Rightarrow> int \<Rightarrow> int \<Rightarrow> int \<Rightarrow> int \<Rightarrow> f32 \<Rightarrow> f32 option" where
  "get_green_plain inp x y w black range_f =
     do { s \<leftarrow> c_add x y;
          if c_rem s 2 = 1 then
            normalize_at inp x y w black range_f
          else
            do { xm \<leftarrow> c_sub x 1;
                 xp \<leftarrow> c_add x 1;
                 ym \<leftarrow> c_sub y 1;
                 yp \<leftarrow> c_add y 1;
                 a \<leftarrow> normalize_at inp xm y w black range_f;
                 b \<leftarrow> normalize_at inp xp y w black range_f;
                 c \<leftarrow> normalize_at inp x ym w black range_f;
                 d \<leftarrow> normalize_at inp x yp w black range_f;
                 Some (fdiv (fadd (fadd (fadd a b) c) d) (flit 4)) } }"

definition get_blue_plain ::
  "16 word list \<Rightarrow> int \<Rightarrow> int \<Rightarrow> int \<Rightarrow> int \<Rightarrow> f32 \<Rightarrow> f32 option" where
  "get_blue_plain inp x y w black range_f =
     (if c_rem x 2 = 1 \<and> c_rem y 2 = 1 then
        normalize_at inp x y w black range_f
      else if c_rem x 2 = 0 \<and> c_rem y 2 = 1 then
        do { xm \<leftarrow> c_sub x 1;
             xp \<leftarrow> c_add x 1;
             a \<leftarrow> normalize_at inp xm y w black range_f;
             b \<leftarrow> normalize_at inp xp y w black range_f;
             Some (fdiv (fadd a b) (flit 2)) }
      else if c_rem x 2 = 1 \<and> c_rem y 2 = 0 then
        do { ym \<leftarrow> c_sub y 1;
             yp \<leftarrow> c_add y 1;
             a \<leftarrow> normalize_at inp x ym w black range_f;
             b \<leftarrow> normalize_at inp x yp w black range_f;
             Some (fdiv (fadd a b) (flit 2)) }
      else
        do { xm \<leftarrow> c_sub x 1;
             ym \<leftarrow> c_sub y 1;
             xp \<leftarrow> c_add x 1;
             yp \<leftarrow> c_add y 1;
             a \<leftarrow> normalize_at inp xm ym w black range_f;
             b \<leftarrow> normalize_at inp xp ym w black range_f;
             c \<leftarrow> normalize_at inp xm yp w black range_f;
             d \<leftarrow> normalize_at inp xp yp w black range_f;
             Some (fdiv (fadd (fadd (fadd a b) c) d) (flit 4)) })"

definition debayer16_to_xyz_plain ::
  "16 word list \<Rightarrow> nat \<Rightarrow> int \<Rightarrow> int \<Rightarrow> f32 \<Rightarrow> f32 \<Rightarrow> f32 \<Rightarrow> int \<Rightarrow> int \<Rightarrow> f32 list
     \<Rightarrow> int \<Rightarrow> int \<Rightarrow> store list option" where
  "debayer16_to_xyz_plain inp out_len width height wb_r wb_g wb_b black_level white_level
       cam_to_xyz x y =
     (if x < 1 then Some [] else
      do { w1 \<leftarrow> c_sub width 1;
      if x \<ge> w1 then Some [] else
      if y < 1 then Some [] else
      do { h1 \<leftarrow> c_sub height 1;
      if y \<ge> h1 then Some [] else
      do { rng \<leftarrow> c_sub white_level black_level;
           let range_f = i2f rng;
           r \<leftarrow> get_red_plain inp x y width black_level range_f;
           let cam_r = fmul r wb_r;
           g \<leftarrow> get_green_plain inp x y width black_level range_f;
           let cam_g = fmul g wb_g;
           b \<leftarrow> get_blue_plain inp x y width black_level range_f;
           let cam_b = fmul b wb_b;
           m0 \<leftarrow> read_f32 cam_to_xyz 0;
           m1 \<leftarrow> read_f32 cam_to_xyz 1;
           m2 \<leftarrow> read_f32 cam_to_xyz 2;
           m3 \<leftarrow> read_f32 cam_to_xyz 3;
           let xyz_x = fadd (fadd (fadd (fmul m0 cam_r) (fmul m1 cam_g)) (fmul m2 cam_b)) m3;
           m4 \<leftarrow> read_f32 cam_to_xyz 4;
           m5 \<leftarrow> read_f32 cam_to_xyz 5;
           m6 \<leftarrow> read_f32 cam_to_xyz 6;
           m7 \<leftarrow> read_f32 cam_to_xyz 7;
           let xyz_y = fadd (fadd (fadd (fmul m4 cam_r) (fmul m5 cam_g)) (fmul m6 cam_b)) m7;
           m8 \<leftarrow> read_f32 cam_to_xyz 8;
           m9 \<leftarrow> read_f32 cam_to_xyz 9;
           m10 \<leftarrow> read_f32 cam_to_xyz 10;
           m11 \<leftarrow> read_f32 cam_to_xyz 11;
           let xyz_z = fadd (fadd (fadd (fmul m8 cam_r) (fmul m9 cam_g)) (fmul m10 cam_b)) m11;
           let srgb_r = fsub (fsub (fmul (flit (32404542 / 10000000)) xyz_x)
                                   (fmul (flit (15371385 / 10000000)) xyz_y))
                             (fmul (flit (4985314 / 10000000)) xyz_z);
           let srgb_g = fadd (fadd (fmul (fneg (flit (9692660 / 10000000))) xyz_x)
                                   (fmul (flit (18760108 / 10000000)) xyz_y))
                             (fmul (flit (415560 / 10000000)) xyz_z);
           let srgb_b = fadd (fsub (fmul (flit (556434 / 10000000)) xyz_x)
                                   (fmul (flit (2040259 / 10000000)) xyz_y))
                             (fmul (flit (10572252 / 10000000)) xyz_z);
           let exposure = flit (35 / 10);
           let srgb_r = fmul srgb_r exposure;
           let srgb_g = fmul srgb_g exposure;
           let srgb_b = fmul srgb_b exposure;
           yw \<leftarrow> c_mul y width;
           p \<leftarrow> c_add yw x;
           idx \<leftarrow> c_mul p 3;
           s0 \<leftarrow> write_f32 out_len idx (fminf (fmaxf srgb_r (flit 0)) (flit 1));
           idx1 \<leftarrow> c_add idx 1;
           s1 \<leftarrow> write_f32 out_len idx1 (fminf (fmaxf srgb_g (flit 0)) (flit 1));
           idx2 \<leftarrow> c_add idx 2;
           s2 \<leftarrow> write_f32 out_len idx2 (fminf (fmaxf srgb_b (flit 0)) (flit 1));
           Some [s0, s1, s2] } } })"

section \<open>color\_pipeline.cu\<close>

definition apply_color_pipeline ::
  "16 word list \<Rightarrow> nat \<Rightarrow> int \<Rightarrow> int \<Rightarrow> f32 \<Rightarrow> f32 \<Rightarrow> f32 \<Rightarrow> int \<Rightarrow> int \<Rightarrow> f32 list
     \<Rightarrow> int \<Rightarrow> int \<Rightarrow> store list option" where
  "apply_color_pipeline rgb_in out_len width height wb_r wb_g wb_b black_level white_level
       cam_to_xyz x y =
     (if x \<ge> width \<or> y \<ge> height then Some [] else
      do { yw \<leftarrow> c_mul y width;
           p \<leftarrow> c_add yw x;
           idx \<leftarrow> c_mul p 3;
           rng \<leftarrow> c_sub white_level black_level;
           let inv_range = fdiv (flit 1) (i2f rng);
           r_raw \<leftarrow> read_u16 rgb_in idx;
           idx1 \<leftarrow> c_add idx 1;
           g_raw \<leftarrow> read_u16 rgb_in idx1;
           idx2 \<leftarrow> c_add idx 2;
           b_raw \<leftarrow> read_u16 rgb_in idx2;
           rv \<leftarrow> c_sub (uint r_raw) black_level;
           let r_norm = fmaxf (fmul (i2f rv) inv_range) (flit 0);
           gv \<leftarrow> c_sub (uint g_raw) black_level;
           let g_norm = fmaxf (fmul (i2f gv) inv_range) (flit 0);
           bv \<leftarrow> c_sub (uint b_raw) black_level;
           let b_norm = fmaxf (fmul (i2f bv) inv_range) (flit 0);
           let cam_r = fmul r_norm wb_r;
           let cam_g = fmul g_norm wb_g;
           let cam_b = fmul b_norm wb_b;
           m0 \<leftarrow> read_f32 cam_to_xyz 0;
           m1 \<leftarrow> read_f32 cam_to_xyz 1;
           m2 \<leftarrow> read_f32 cam_to_xyz 2;
           m3 \<leftarrow> read_f32 cam_to_xyz 3;
           let xyz_x = fmaf_rn m0 cam_r (fmaf_rn m1 cam_g (fmaf_rn m2 cam_b m3));
           m4 \<leftarrow> read_f32 cam_to_xyz 4;
           m5 \<leftarrow> read_f32 cam_to_xyz 5;
           m6 \<leftarrow> read_f32 cam_to_xyz 6;
           m7 \<leftarrow> read_f32 cam_to_xyz 7;
           let xyz_y = fmaf_rn m4 cam_r (fmaf_rn m5 cam_g (fmaf_rn m6 cam_b m7));
           m8 \<leftarrow> read_f32 cam_to_xyz 8;
           m9 \<leftarrow> read_f32 cam_to_xyz 9;
           m10 \<leftarrow> read_f32 cam_to_xyz 10;
           m11 \<leftarrow> read_f32 cam_to_xyz 11;
           let xyz_z = fmaf_rn m8 cam_r (fmaf_rn m9 cam_g (fmaf_rn m10 cam_b m11));
           let exposure = flit (35 / 10);
           let srgb_r = fmul (fmaf_rn (flit (32404542 / 10000000)) xyz_x
                          (fmaf_rn (fneg (flit (15371385 / 10000000))) xyz_y
                             (fmul (fneg (flit (4985314 / 10000000))) xyz_z))) exposure;
           let srgb_g = fmul (fmaf_rn (fneg (flit (9692660 / 10000000))) xyz_x
                          (fmaf_rn (flit (18760108 / 10000000)) xyz_y
                             (fmul (flit (415560 / 10000000)) xyz_z))) exposure;
           let srgb_b = fmul (fmaf_rn (flit (556434 / 10000000)) xyz_x
                          (fmaf_rn (fneg (flit (2040259 / 10000000))) xyz_y
                             (fmul (flit (10572252 / 10000000)) xyz_z))) exposure;
           s0 \<leftarrow> write_f32 out_len idx (fminf (fmaxf srgb_r (flit 0)) (flit 1));
           s1 \<leftarrow> write_f32 out_len idx1 (fminf (fmaxf srgb_g (flit 0)) (flit 1));
           s2 \<leftarrow> write_f32 out_len idx2 (fminf (fmaxf srgb_b (flit 0)) (flit 1));
           Some [s0, s1, s2] })"

section \<open>A launch\<close>

text \<open>
  A launch runs the kernel once for each thread of the grid.  The threads share nothing
  but the output buffer, which none of them reads, so the launch is the concatenation of
  the threads' stores; it is undefined as soon as one thread is.
\<close>

fun launch :: "(int \<Rightarrow> int \<Rightarrow> store list option) \<Rightarrow> (int \<times> int) list \<Rightarrow> store list option" where
  "launch k [] = Some []"
| "launch k ((x, y) # ts) =
     do { ws \<leftarrow> k x y; rest \<leftarrow> launch k ts; Some (ws @ rest) }"

section \<open>The pipeline stages as the specification describes them\<close>

text \<open>
  The definitions of this section follow the wording of the specification (data model,
  sections 4.1 to 4.4); the theorems below compare the kernels with them.
\<close>

subsection \<open>Well-formed calls\<close>

text \<open>
  The levels are such that \<^verbatim>\<open>(int)val - black\<close> cannot overflow for any 16-bit sample and
  \<^verbatim>\<open>white_level - black_level\<close> does not overflow either.  The frame has a positive
  size, its \<open>3 * width * height\<close> components can be indexed by an \<^verbatim>\<open>int\<close>, and the
  buffers are as large as the specification requires.
\<close>

definition levels_ok :: "int \<Rightarrow> int \<Rightarrow> bool" where
  "levels_ok black white \<longleftrightarrow>
     in_int (- black) \<and> in_int (65535 - black) \<and> in_int (white - black)"

definition frame_ok :: "int \<Rightarrow> int \<Rightarrow> nat \<Rightarrow> bool" where
  "frame_ok width height out_len \<longleftrightarrow>
     0 < width \<and> 0 < height \<and> in_int (width * height * 3) \<and>
     width * height * 3 \<le> int out_len"

definition in_frame :: "int \<Rightarrow> int \<Rightarrow> int \<Rightarrow> int \<Rightarrow> bool" where
  "in_frame width height x y \<longleftrightarrow> 0 \<le> x \<and> x < width \<and> 0 \<le> y \<and> y < height"

definition interior :: "int \<Rightarrow> int \<Rightarrow> int \<Rightarrow> int \<Rightarrow> bool" where
  "interior width height x y \<longleftrightarrow> 1 \<le> x \<and> x < width - 1 \<and> 1 \<le> y \<and> y < height - 1"

text \<open>The offset of the first component of pixel \<open>(x, y)\<close> in an interleaved buffer.\<close>

definition pixel_index :: "int \<Rightarrow> int \<Rightarrow> int \<Rightarrow> int" where
  "pixel_index width x y = (y * width + x) * 3"

fun stores_at :: "int \<Rightarrow> f32 \<times> f32 \<times> f32 \<Rightarrow> store list" where
  "stores_at idx (r, g, b) = [(idx, r), (idx + 1, g), (idx + 2, b)]"

subsection \<open>Normalization (4.1)\<close>

definition inv_range_of :: "int \<Rightarrow> int \<Rightarrow> f32" where
  "inv_range_of black white = fdiv (flit 1) (i2f (white - black))"

definition sample_norm :: "16 word \<Rightarrow> int \<Rightarrow> f32 \<Rightarrow> f32" where
  "sample_norm val black inv_range =
     fmaxf (fmul (i2f (uint val - black)) inv_range) (flit 0)"



subsection \<open>Demosaic (4.2)\<close>

text \<open>
  The state machine over pixel parity: which samples a channel is reconstructed from.
  The arguments of the three selectors are \<open>x mod 2\<close> and \<open>y mod 2\<close>.
\<close>

datatype branch = Direct | Horizontal | Vertical | Diagonal | Orthogonal

definition red_branch :: "int \<Rightarrow> int \<Rightarrow> branch" where
  "red_branch px py =
     (if px = 0 \<and> py = 0 then Direct
      else if px = 1 \<and> py = 0 then Horizontal
      else if px = 0 \<and> py = 1 then Vertical
      else Diagonal)"

definition green_branch :: "int \<Rightarrow> int \<Rightarrow> branch" where
  "green_branch px py = (if (px + py) mod 2 = 1 then Direct else Orthogonal)"

text \<open>Blue is the mirror of red: the roles of even and odd are swapped.\<close>

definition blue_branch :: "int \<Rightarrow> int \<Rightarrow> branch" where
  "blue_branch px py = red_branch (1 - px) (1 - py)"

fun neighbours :: "branch \<Rightarrow> int \<Rightarrow> int \<Rightarrow> (int \<times> int) list" where
  "neighbours Direct x y = [(x, y)]"
| "neighbours Horizontal x y = [(x - 1, y), (x + 1, y)]"
| "neighbours Vertical x y = [(x, y - 1), (x, y + 1)]"
| "neighbours Diagonal x y = [(x - 1, y - 1), (x + 1, y - 1), (x - 1, y + 1), (x + 1, y + 1)]"
| "neighbours Orthogonal x y = [(x - 1, y), (x + 1, y), (x, y - 1), (x, y + 1)]"

text \<open>A direct sample, the average of two, or the average of four.\<close>

fun average :: "f32 list \<Rightarrow> f32" where
  "average [a] = a"
| "average [a, b] = fmul (fadd a b) (flit (1 / 2))"
| "average [a, b, c, d] = fmul (fadd (fadd (fadd a b) c) d) (flit (1 / 4))"
| "average _ = NaN"

definition sample_at :: "16 word list \<Rightarrow> int \<Rightarrow> int \<Rightarrow> f32 \<Rightarrow> int \<times> int \<Rightarrow> f32" where
  "sample_at inp w black inv_range p =
     sample_norm (inp ! nat (fst p + snd p * w)) black inv_range"

definition channel ::
  "branch \<Rightarrow> 16 word list \<Rightarrow> int \<Rightarrow> int \<Rightarrow> int \<Rightarrow> int \<Rightarrow> f32 \<Rightarrow> f32" where
  "channel br inp x y w black inv_range =
     average (map (sample_at inp w black inv_range) (neighbours br x y))"

text \<open>
  The linear camera RGB of a pixel: reconstructed from the mosaic and white-balanced
  (Demosaic), or read from the pre-demosaiced buffer, normalized and white-balanced
  (Color-only pipeline).
\<close>

definition camera_rgb_demosaic ::
  "16 word list \<Rightarrow> int \<Rightarrow> f32 \<Rightarrow> f32 \<Rightarrow> f32 \<Rightarrow> int \<Rightarrow> int \<Rightarrow> int \<Rightarrow> int
     \<Rightarrow> f32 \<times> f32 \<times> f32" where
  "camera_rgb_demosaic inp width wb_r wb_g wb_b black white x y =
     (fmul (channel (red_branch (x mod 2) (y mod 2)) inp x y width black
              (inv_range_of black white)) wb_r,
      fmul (channel (green_branch (x mod 2) (y mod 2)) inp x y width black
              (inv_range_of black white)) wb_g,
      fmul (channel (blue_branch (x mod 2) (y mod 2)) inp x y width black
              (inv_range_of black white)) wb_b)"

definition camera_rgb_color_only ::
  "16 word list \<Rightarrow> int \<Rightarrow> f32 \<Rightarrow> f32 \<Rightarrow> f32 \<Rightarrow> int \<Rightarrow> int \<Rightarrow> int \<Rightarrow> int
     \<Rightarrow> f32 \<times> f32 \<times> f32" where
  "camera_rgb_color_only rgb_in width wb_r wb_g wb_b black white x y =
     (fmul (sample_norm (rgb_in ! nat (pixel_index width x y)) black
              (inv_range_of black white)) wb_r,
      fmul (sample_norm (rgb_in ! nat (pixel_index width x y + 1)) black
              (inv_range_of black white)) wb_g,
      fmul (sample_norm (rgb_in ! nat (pixel_index width x y + 2)) black
              (inv_range_of black white)) wb_b)"

subsection \<open>Color-Transform (4.3)\<close>

text \<open>Step 1: the affine camera-to-XYZ matrix, one row: \<open>M[i][0]*r + M[i][1]*g + M[i][2]*b + M[i][3]\<close>,
  accumulated with fused multiply-adds from the offset outwards.\<close>

definition affine_row :: "f32 \<Rightarrow> f32 \<Rightarrow> f32 \<Rightarrow> f32 \<Rightarrow> f32 \<times> f32 \<times> f32 \<Rightarrow> f32" where
  "affine_row m0 m1 m2 m3 c =
     fmaf_rn m0 (fst c) (fmaf_rn m1 (fst (snd c)) (fmaf_rn m2 (snd (snd c)) m3))"

definition step_cam_to_xyz :: "f32 list \<Rightarrow> f32 \<times> f32 \<times> f32 \<Rightarrow> f32 \<times> f32 \<times> f32" where
  "step_cam_to_xyz M c =
     (affine_row (M ! 0) (M ! 1) (M ! 2) (M ! 3) c,
      affine_row (M ! 4) (M ! 5) (M ! 6) (M ! 7) c,
      affine_row (M ! 8) (M ! 9) (M ! 10) (M ! 11) c)"

text \<open>Step 2: the fixed XYZ-to-sRGB matrix.\<close>

definition srgb_row :: "f32 \<Rightarrow> f32 \<Rightarrow> f32 \<Rightarrow> f32 \<times> f32 \<times> f32 \<Rightarrow> f32" where
  "srgb_row a b c xyz =
     fmaf_rn a (fst xyz) (fmaf_rn b (fst (snd xyz)) (fmul c (snd (snd xyz))))"

definition step_xyz_to_srgb :: "f32 \<times> f32 \<times> f32 \<Rightarrow> f32 \<times> f32 \<times> f32" where
  "step_xyz_to_srgb xyz =
     (srgb_row (flit (32404542 / 10000000)) (fneg (flit (15371385 / 10000000)))
        (fneg (flit (4985314 / 10000000))) xyz,
      srgb_row (fneg (flit (9692660 / 10000000))) (flit (18760108 / 10000000))
        (flit (415560 / 10000000)) xyz,
      srgb_row (flit (556434 / 10000000)) (fneg (flit (2040259 / 10000000)))
        (flit (10572252 / 10000000)) xyz)"

text \<open>Step 3: the exposure factor 3.5.  Step 4: the clamp to \<open>[0, 1]\<close>.\<close>

definition step_exposure :: "f32 \<times> f32 \<times> f32 \<Rightarrow> f32 \<times> f32 \<times> f32" where
  "step_exposure c =
     (fmul (fst c) (flit (35 / 10)), fmul (fst (snd c)) (flit (35 / 10)),
      fmul (snd (snd c)) (flit (35 / 10)))"

definition clamp01 :: "f32 \<Rightarrow> f32" where
  "clamp01 v = fminf (fmaxf v (flit 0)) (flit 1)"

definition step_clamp :: "f32 \<times> f32 \<times> f32 \<Rightarrow> f32 \<times> f32 \<times> f32" where
  "step_clamp c = (clamp01 (fst c), clamp01 (fst (snd c)), clamp01 (snd (snd c)))"

definition color_transform :: "f32 list \<Rightarrow> f32 \<times> f32 \<times> f32 \<Rightarrow> f32 \<times> f32 \<times> f32" where
  "color_transform M c = step_clamp (step_exposure (step_xyz_to_srgb (step_cam_to_xyz M c)))"

definition in_unit :: "f32 \<Rightarrow> bool" where
  "in_unit v \<longleftrightarrow> fle (flit 0) v \<and> fle v (flit 1)"

subsection \<open>The same stages in the arithmetic of the second kernel\<close>

text \<open>
  The second kernel follows the same stages with other operations: the difference is
  clamped at 0 as an integer and divided by the range, the averages divide by 2 and 4,
  and the matrix products are sums of separately rounded products.
\<close>

definition sample_norm_plain :: "16 word \<Rightarrow> int \<Rightarrow> f32 \<Rightarrow> f32" where
  "sample_norm_plain val black range_f =
     fdiv (i2f (if uint val - black < 0 then 0 else uint val - black)) range_f"

fun average_plain :: "f32 list \<Rightarrow> f32" where
  "average_plain [a] = a"
| "average_plain [a, b] = fdiv (fadd a b) (flit 2)"
| "average_plain [a, b, c, d] = fdiv (fadd (fadd (fadd a b) c) d) (flit 4)"
| "average_plain _ = NaN"

definition sample_at_plain :: "16 word list \<Rightarrow> int \<Rightarrow> int \<Rightarrow> f32 \<Rightarrow> int \<times> int \<Rightarrow> f32" where
  "sample_at_plain inp w black range_f p =
     sample_norm_plain (inp ! nat (fst p + snd p * w)) black range_f"

definition channel_plain ::
  "branch \<Rightarrow> 16 word list \<Rightarrow> int \<Rightarrow> int \<Rightarrow> int \<Rightarrow> int \<Rightarrow> f32 \<Rightarrow> f32" where
  "channel_plain br inp x y w black range_f =
     average_plain (map (sample_at_plain inp w black range_f) (neighbours br x y))"

definition camera_rgb_plain ::
  "16 word list \<Rightarrow> int \<Rightarrow> f32 \<Rightarrow> f32 \<Rightarrow> f32 \<Rightarrow> int \<Rightarrow> int \<Rightarrow> int \<Rightarrow> int
     \<Rightarrow> f32 \<times> f32 \<times> f32" where
  "camera_rgb_plain inp width wb_r wb_g wb_b black white x y =
     (fmul (channel_plain (red_branch (x mod 2) (y mod 2)) inp x y width black
              (i2f (white - black))) wb_r,
      fmul (channel_plain (green_branch (x mod 2) (y mod 2)) inp x y width black
              (i2f (white - black))) wb_g,
      fmul (channel_plain (blue_branch (x mod 2) (y mod 2)) inp x y width black
              (i2f (white - black))) wb_b)"

definition affine_row_plain :: "f32 \<Rightarrow> f32 \<Rightarrow> f32 \<Rightarrow> f32 \<Rightarrow> f32 \<times> f32 \<times> f32 \<Rightarrow> f32" where
  "affine_row_plain m0 m1 m2 m3 c =
     fadd (fadd (fadd (fmul m0 (fst c)) (fmul m1 (fst (snd c)))) (fmul m2 (snd (snd c)))) m3"

definition step_cam_to_xyz_plain :: "f32 list \<Rightarrow> f32 \<times> f32 \<times> f32 \<Rightarrow> f32 \<times> f32 \<times> f32" where
  "step_cam_to_xyz_plain M c =
     (affine_row_plain (M ! 0) (M ! 1) (M ! 2) (M ! 3) c,
      affine_row_plain (M ! 4) (M ! 5) (M ! 6) (M ! 7) c,
      affine_row_plain (M ! 8) (M ! 9) (M ! 10) (M ! 11) c)"

definition step_xyz_to_srgb_plain :: "f32 \<times> f32 \<times> f32 \<Rightarrow> f32 \<times> f32 \<times> f32" where
  "step_xyz_to_srgb_plain xyz =
     (fsub (fsub (fmul (flit (32404542 / 10000000)) (fst xyz))
                 (fmul (flit (15371385 / 10000000)) (fst (snd xyz))))
           (fmul (flit (4985314 / 10000000)) (snd (snd xyz))),
      fadd (fadd (fmul (fneg (flit (9692660 / 10000000))) (fst xyz))
                 (fmul (flit (18760108 / 10000000)) (fst (snd xyz))))
           (fmul (flit (415560 / 10000000)) (snd (snd xyz))),
      fadd (fsub (fmul (flit (556434 / 10000000)) (fst xyz))
                 (fmul (flit (2040259 / 10000000)) (fst (snd xyz))))
           (fmul (flit (10572252 / 10000000)) (snd (snd xyz))))"

definition color_transform_plain :: "f32 list \<Rightarrow> f32 \<times> f32 \<times> f32 \<Rightarrow> f32 \<times> f32 \<times> f32" where
  "color_transform_plain M c =
     step_clamp (step_exposure (step_xyz_to_srgb_plain (step_cam_to_xyz_plain M c)))"

subsection \<open>The stages over an arbitrary arithmetic\<close>











subsection \<open>Stores of a launch (4.4)\<close>

text \<open>How many of the stores \<open>ws\<close> go to the location \<open>i\<close> of the output buffer.\<close>

definition stores_to :: "int \<Rightarrow> store list \<Rightarrow> nat" where
  "stores_to i ws = length (filter (\<lambda>s. fst s = i) ws)"

section \<open>The output clamp\<close>

lemma flit_0: "flit 0 = Zero False"
  by (simp add: flit_def round32_def)

lemma flit_1: "flit 1 = Val 1"
  by code_simp

text \<open>What \<^verbatim>\<open>fminf(fmaxf(v, 0.0f), 1.0f)\<close> returns, by the kind of \<open>v\<close>.\<close>

lemma clamp_cases:
  "fminf (fmaxf v (flit 0)) (flit 1) =
     (case v of NaN \<Rightarrow> Zero False
      | Inf s \<Rightarrow> (if s then Zero False else Val 1)
      | Zero s \<Rightarrow> Zero False
      | Val q \<Rightarrow> (if q \<le> 0 then Zero False else if 1 < q then Val 1 else Val q))"
  by (cases v) (auto simp: fminf_def fmaxf_def flit_0 flit_1)

lemma clamp_in_unit:
  "fle (flit 0) (fminf (fmaxf v (flit 0)) (flit 1)) \<and>
   fle (fminf (fmaxf v (flit 0)) (flit 1)) (flit 1)"
  unfolding clamp_cases by (cases v) (auto simp: fle_def flit_0 flit_1)

text \<open>
  C9.  The clamp \<^verbatim>\<open>fminf(fmaxf(v, 0.0f), 1.0f)\<close> that both kernels apply to each output
  channel is idempotent on every binary32 datum, NaN and the infinities included:
  clamping a clamped value returns it unchanged, bit for bit.
\<close>

theorem clamp_idempotent:
  "fminf (fmaxf (fminf (fmaxf v (flit 0)) (flit 1)) (flit 0)) (flit 1) =
   fminf (fmaxf v (flit 0)) (flit 1)"
  by (cases v) (auto simp: clamp_cases)

section \<open>The kernels on well-formed calls\<close>

text \<open>
  On a well-formed call no arithmetic overflows and every access is inside its buffer,
  so each kernel thread returns its stores; the lemmas of this section say which.
\<close>

lemma c_int_ok: "in_int i \<Longrightarrow> c_int i = Some i" by (simp add: c_int_def)
lemma c_add_ok: "in_int (a + b) \<Longrightarrow> c_add a b = Some (a + b)" by (simp add: c_add_def c_int_def)
lemma c_sub_ok: "in_int (a - b) \<Longrightarrow> c_sub a b = Some (a - b)" by (simp add: c_sub_def c_int_def)
lemma c_mul_ok: "in_int (a * b) \<Longrightarrow> c_mul a b = Some (a * b)" by (simp add: c_mul_def c_int_def)

lemma in_int_between: "in_int lo \<Longrightarrow> in_int hi \<Longrightarrow> lo \<le> i \<Longrightarrow> i \<le> hi \<Longrightarrow> in_int i"
  by (simp add: in_int_def)

lemma in_int_0: "in_int 0" by (simp add: in_int_def)

lemma normalize_pixel_ok:
  assumes "levels_ok black white"
  shows "normalize_pixel val black ir = Some (sample_norm val black ir)"
proof -
  have "0 \<le> uint val" "uint val \<le> 65535"
    using uint_bounded[of val] by simp_all
  then have "in_int (uint val - black)"
    using assms unfolding levels_ok_def in_int_def by linarith
  then show ?thesis
    by (simp add: normalize_pixel_def sample_norm_def c_sub_ok)
qed

lemma cell_bounds:
  assumes "0 \<le> (a::int)" "a < w" "0 \<le> (b::int)" "b < h"
  shows "0 \<le> b * w" "b * w + a < w * h" "0 \<le> a + b * w"
proof -
  have w: "0 < w" using assms by linarith
  show "0 \<le> b * w" using assms w by simp
  have "(b + 1) * w \<le> h * w" using assms w by (intro mult_right_mono) auto
  then show "b * w + a < w * h" using assms by (simp add: algebra_simps)
  show "0 \<le> a + b * w" using \<open>0 \<le> b * w\<close> assms by linarith
qed

lemma PIX_ok:
  assumes "0 \<le> a" "a < w" "0 \<le> b" "b < h" "in_int (w * h)" "w * h \<le> int (length inp)"
  shows "PIX inp a b w = Some (inp ! nat (a + b * w))"
proof -
  note cb = cell_bounds[OF assms(1-4)]
  have 1: "in_int (b * w)" using cb assms(1,5) by (auto simp: in_int_def)
  have 2: "in_int (a + b * w)" using cb assms(5) by (auto simp: in_int_def)
  have 3: "a + b * w < int (length inp)" using cb assms(6) by linarith
  show ?thesis using cb 3 by (simp add: PIX_def c_mul_ok[OF 1] c_add_ok[OF 2] read_u16_def)
qed

lemma norm_pix_ok:
  assumes "levels_ok black white" "0 \<le> a" "a < w" "0 \<le> b" "b < h" "in_int (w * h)"
    "w * h \<le> int (length inp)"
  shows "norm_pix inp a b w black ir = Some (sample_at inp w black ir (a, b))"
  by (simp add: norm_pix_def PIX_ok[OF assms(2-7)] normalize_pixel_ok[OF assms(1)] sample_at_def)


lemma and_1_int: "(x::int) AND 1 = x mod 2"
  by (simp add: and_one_eq)

lemma interior_facts:
  assumes "interior w h x y" "in_int (w * h)"
  shows "0 < w" "0 < h" "in_int (x - 1)" "in_int (x + 1)" "in_int (y - 1)" "in_int (y + 1)"
    "in_int (x + y)" "in_int (w - 1)" "in_int (h - 1)"
    "0 \<le> x - 1" "x + 1 < w" "0 \<le> y - 1" "y + 1 < h" "0 \<le> x" "x < w" "0 \<le> y" "y < h"
proof -
  from assms(1) have i: "1 \<le> x" "x < w - 1" "1 \<le> y" "y < h - 1"
    by (simp_all add: interior_def)
  then show w: "0 < w" and h: "0 < h" by linarith+
  have "w * 1 \<le> w * h" using w h i by (intro mult_left_mono) auto
  moreover have "1 * h \<le> w * h" using w h i by (intro mult_right_mono) auto
  moreover have "(x + 1) * (y + 1) \<le> w * h"
    using i by (intro mult_mono) auto
  moreover have "x + y \<le> (x + 1) * (y + 1)" using i by (simp add: algebra_simps)
  ultimately have b: "w \<le> w * h" "h \<le> w * h" "x + y \<le> w * h" by simp_all
  from assms(2) have m: "w * h \<le> 2147483647" by (simp add: in_int_def)
  show "in_int (x - 1)" "in_int (x + 1)" "in_int (y - 1)" "in_int (y + 1)"
    "in_int (x + y)" "in_int (w - 1)" "in_int (h - 1)"
    using i b m unfolding in_int_def by linarith+
  show "0 \<le> x - 1" "x + 1 < w" "0 \<le> y - 1" "y + 1 < h" "0 \<le> x" "x < w" "0 \<le> y" "y < h"
    using i by simp_all
qed

lemma get_red_ok:
  assumes lv: "levels_ok black white" and it: "interior w h x y"
    and sz: "in_int (w * h)" "w * h \<le> int (length inp)"
  shows "get_red inp x y w black ir =
           Some (channel (red_branch (x mod 2) (y mod 2)) inp x y w black ir)"
proof -
  note f = interior_facts[OF it sz(1)]
  note np = norm_pix_ok[OF lv _ _ _ _ sz]
  have n: "norm_pix inp x y w black ir = Some (sample_at inp w black ir (x, y))"
    "norm_pix inp (x - 1) y w black ir = Some (sample_at inp w black ir (x - 1, y))"
    "norm_pix inp (x + 1) y w black ir = Some (sample_at inp w black ir (x + 1, y))"
    "norm_pix inp x (y - 1) w black ir = Some (sample_at inp w black ir (x, y - 1))"
    "norm_pix inp x (y + 1) w black ir = Some (sample_at inp w black ir (x, y + 1))"
    "norm_pix inp (x - 1) (y - 1) w black ir = Some (sample_at inp w black ir (x - 1, y - 1))"
    "norm_pix inp (x + 1) (y - 1) w black ir = Some (sample_at inp w black ir (x + 1, y - 1))"
    "norm_pix inp (x - 1) (y + 1) w black ir = Some (sample_at inp w black ir (x - 1, y + 1))"
    "norm_pix inp (x + 1) (y + 1) w black ir = Some (sample_at inp w black ir (x + 1, y + 1))"
    using f by (auto intro!: np)
  have par: "x mod 2 = 0 \<or> x mod 2 = 1" "y mod 2 = 0 \<or> y mod 2 = 1" by presburger+
  show ?thesis
    using par
    by (auto simp: get_red_def and_1_int red_branch_def channel_def n
        c_sub_ok[OF f(3)] c_add_ok[OF f(4)] c_sub_ok[OF f(5)] c_add_ok[OF f(6)])
qed


lemma get_green_ok:
  assumes lv: "levels_ok black white" and it: "interior w h x y"
    and sz: "in_int (w * h)" "w * h \<le> int (length inp)"
  shows "get_green inp x y w black ir =
           Some (channel (green_branch (x mod 2) (y mod 2)) inp x y w black ir)"
proof -
  note f = interior_facts[OF it sz(1)]
  note np = norm_pix_ok[OF lv _ _ _ _ sz]
  have n: "norm_pix inp x y w black ir = Some (sample_at inp w black ir (x, y))"
    "norm_pix inp (x - 1) y w black ir = Some (sample_at inp w black ir (x - 1, y))"
    "norm_pix inp (x + 1) y w black ir = Some (sample_at inp w black ir (x + 1, y))"
    "norm_pix inp x (y - 1) w black ir = Some (sample_at inp w black ir (x, y - 1))"
    "norm_pix inp x (y + 1) w black ir = Some (sample_at inp w black ir (x, y + 1))"
    "norm_pix inp (x - 1) (y - 1) w black ir = Some (sample_at inp w black ir (x - 1, y - 1))"
    "norm_pix inp (x + 1) (y - 1) w black ir = Some (sample_at inp w black ir (x + 1, y - 1))"
    "norm_pix inp (x - 1) (y + 1) w black ir = Some (sample_at inp w black ir (x - 1, y + 1))"
    "norm_pix inp (x + 1) (y + 1) w black ir = Some (sample_at inp w black ir (x + 1, y + 1))"
    using f by (auto intro!: np)
  have par: "x mod 2 = 0 \<or> x mod 2 = 1" "y mod 2 = 0 \<or> y mod 2 = 1" by presburger+
  have g: "(x mod 2 + y mod 2) mod 2 = (x + y) mod 2" by presburger
  have par2: "(x + y) mod 2 = 0 \<or> (x + y) mod 2 = 1" by presburger
  show ?thesis
    using par2
    by (auto simp: get_green_def and_1_int green_branch_def g channel_def n c_add_ok[OF f(7)]
        c_sub_ok[OF f(3)] c_add_ok[OF f(4)] c_sub_ok[OF f(5)] c_add_ok[OF f(6)])
qed

lemma get_blue_ok:
  assumes lv: "levels_ok black white" and it: "interior w h x y"
    and sz: "in_int (w * h)" "w * h \<le> int (length inp)"
  shows "get_blue inp x y w black ir =
           Some (channel (blue_branch (x mod 2) (y mod 2)) inp x y w black ir)"
proof -
  note f = interior_facts[OF it sz(1)]
  note np = norm_pix_ok[OF lv _ _ _ _ sz]
  have n: "norm_pix inp x y w black ir = Some (sample_at inp w black ir (x, y))"
    "norm_pix inp (x - 1) y w black ir = Some (sample_at inp w black ir (x - 1, y))"
    "norm_pix inp (x + 1) y w black ir = Some (sample_at inp w black ir (x + 1, y))"
    "norm_pix inp x (y - 1) w black ir = Some (sample_at inp w black ir (x, y - 1))"
    "norm_pix inp x (y + 1) w black ir = Some (sample_at inp w black ir (x, y + 1))"
    "norm_pix inp (x - 1) (y - 1) w black ir = Some (sample_at inp w black ir (x - 1, y - 1))"
    "norm_pix inp (x + 1) (y - 1) w black ir = Some (sample_at inp w black ir (x + 1, y - 1))"
    "norm_pix inp (x - 1) (y + 1) w black ir = Some (sample_at inp w black ir (x - 1, y + 1))"
    "norm_pix inp (x + 1) (y + 1) w black ir = Some (sample_at inp w black ir (x + 1, y + 1))"
    using f by (auto intro!: np)
  have par: "x mod 2 = 0 \<or> x mod 2 = 1" "y mod 2 = 0 \<or> y mod 2 = 1" by presburger+
  show ?thesis
    using par
    by (auto simp: get_blue_def and_1_int blue_branch_def red_branch_def channel_def n
        c_sub_ok[OF f(3)] c_add_ok[OF f(4)] c_sub_ok[OF f(5)] c_add_ok[OF f(6)])
qed

lemma read_f32_ok: "i < length M \<Longrightarrow> read_f32 M (int i) = Some (M ! i)"
  by (simp add: read_f32_def)

lemma matrix_reads:
  assumes "12 \<le> length M"
  shows "read_f32 M 0 = Some (M ! 0)" "read_f32 M 1 = Some (M ! 1)"
    "read_f32 M 2 = Some (M ! 2)" "read_f32 M 3 = Some (M ! 3)"
    "read_f32 M 4 = Some (M ! 4)" "read_f32 M 5 = Some (M ! 5)"
    "read_f32 M 6 = Some (M ! 6)" "read_f32 M 7 = Some (M ! 7)"
    "read_f32 M 8 = Some (M ! 8)" "read_f32 M 9 = Some (M ! 9)"
    "read_f32 M 10 = Some (M ! 10)" "read_f32 M 11 = Some (M ! 11)"
  using assms by (auto simp: read_f32_def)

lemma frame_facts:
  assumes fr: "frame_ok w h n" and p: "in_frame w h x y"
  shows "in_int (w * h)" "in_int (y * w)" "in_int (y * w + x)" "in_int ((y * w + x) * 3)"
    "in_int ((y * w + x) * 3 + 1)" "in_int ((y * w + x) * 3 + 2)"
    "0 \<le> (y * w + x) * 3" "(y * w + x) * 3 + 2 < int n"
proof -
  from p have i: "0 \<le> x" "x < w" "0 \<le> y" "y < h" by (simp_all add: in_frame_def)
  note cb = cell_bounds[OF i]
  from fr have m: "w * h * 3 \<le> 2147483647" "w * h * 3 \<le> int n" "0 < w" "0 < h"
    by (simp_all add: frame_ok_def in_int_def)
  have wh: "0 < w * h" using m by simp
  have k: "(y * w + x) * 3 + 3 \<le> w * h * 3" "0 \<le> (y * w + x) * 3"
    using cb by simp_all
  show "in_int (w * h)" "in_int (y * w)" "in_int (y * w + x)" "in_int ((y * w + x) * 3)"
    "in_int ((y * w + x) * 3 + 1)" "in_int ((y * w + x) * 3 + 2)"
    using cb k m(1) wh i unfolding in_int_def by linarith+
  show "0 \<le> (y * w + x) * 3" "(y * w + x) * 3 + 2 < int n"
    using k m(2) by linarith+
qed

lemma index_steps:
  assumes fr: "frame_ok w h n" and p: "in_frame w h x y"
  shows "c_mul y w = Some (y * w)" "c_add (y * w) x = Some (y * w + x)"
    "c_mul (y * w + x) 3 = Some (pixel_index w x y)"
    "c_add (pixel_index w x y) 1 = Some (pixel_index w x y + 1)"
    "c_add (pixel_index w x y) 2 = Some (pixel_index w x y + 2)"
    "0 \<le> pixel_index w x y" "pixel_index w x y + 2 < int n"
  using frame_facts[OF fr p]
  by (simp_all only: pixel_index_def c_mul_ok c_add_ok)

lemma interior_in_frame: "interior w h x y \<Longrightarrow> in_frame w h x y"
  by (auto simp: interior_def in_frame_def)

lemma debayer16_to_xyz_interior:
  assumes lv: "levels_ok black white" and it: "interior w h x y"
    and fr: "frame_ok w h out_len" and sz: "w * h \<le> int (length inp)"
    and mt: "12 \<le> length M"
  shows "debayer16_to_xyz inp out_len w h wb_r wb_g wb_b black white M x y =
           Some (stores_at (pixel_index w x y)
                   (color_transform M (camera_rgb_demosaic inp w wb_r wb_g wb_b black white x y)))"
proof -
  note ff = frame_facts[OF fr interior_in_frame[OF it]]
  note ix = index_steps[OF fr interior_in_frame[OF it]]
  note f = interior_facts[OF it ff(1)]
  have rng: "in_int (white - black)" using lv by (simp add: levels_ok_def)
  have i: "1 \<le> x" "x < w - 1" "1 \<le> y" "y < h - 1"
    using it by (simp_all add: interior_def)
  show ?thesis
    using i ix(6,7)
    by (simp add: debayer16_to_xyz_def c_sub_ok[OF f(8)] c_sub_ok[OF f(9)] c_sub_ok[OF rng]
        get_red_ok[OF lv it ff(1) sz] get_green_ok[OF lv it ff(1) sz]
        get_blue_ok[OF lv it ff(1) sz] matrix_reads[OF mt] ix(1-5)
        write_f32_def color_transform_def
        step_clamp_def step_exposure_def step_xyz_to_srgb_def step_cam_to_xyz_def
        affine_row_def srgb_row_def clamp01_def camera_rgb_demosaic_def inv_range_of_def
        Let_def)
qed


lemma debayer16_to_xyz_border:
  assumes "\<not> interior w h x y" "in_int (w - 1)" "in_int (h - 1)"
  shows "debayer16_to_xyz inp out_len w h wb_r wb_g wb_b black white M x y = Some []"
  using assms(1)
  by (auto simp: debayer16_to_xyz_def interior_def c_sub_ok[OF assms(2)] c_sub_ok[OF assms(3)])

lemma frame_sides:
  assumes "frame_ok w h n"
  shows "in_int (w - 1)" "in_int (h - 1)"
proof -
  from assms have m: "w * h * 3 \<le> 2147483647" "0 < w" "0 < h"
    by (simp_all add: frame_ok_def in_int_def)
  have "w * 1 \<le> w * h" using m by (intro mult_left_mono) auto
  moreover have "1 * h \<le> w * h" using m by (intro mult_right_mono) auto
  ultimately have "w \<le> w * h * 3" "h \<le> w * h * 3" using m by simp_all
  then show "in_int (w - 1)" "in_int (h - 1)"
    using m unfolding in_int_def by linarith+
qed

lemma apply_color_pipeline_in_frame:
  assumes lv: "levels_ok black white" and p: "in_frame w h x y"
    and fr: "frame_ok w h out_len" and sz: "w * h * 3 \<le> int (length rgb_in)"
    and mt: "12 \<le> length M"
  shows "apply_color_pipeline rgb_in out_len w h wb_r wb_g wb_b black white M x y =
           Some (stores_at (pixel_index w x y)
                   (color_transform M
                      (camera_rgb_color_only rgb_in w wb_r wb_g wb_b black white x y)))"
proof -
  note ix = index_steps[OF fr p]
  have ix': "pixel_index w x y + 2 < int (length rgb_in)"
    using index_steps(7)[OF _ p, of "length rgb_in"] fr sz by (simp add: frame_ok_def)
  have rng: "in_int (white - black)" using lv by (simp add: levels_ok_def)
  have sub: "\<And>v. c_sub (uint (v::16 word)) black = Some (uint v - black)"
  proof -
    fix v :: "16 word"
    have "0 \<le> uint v" "uint v \<le> 65535" using uint_bounded[of v] by simp_all
    then have "in_int (uint v - black)"
      using lv unfolding levels_ok_def in_int_def by linarith
    then show "c_sub (uint v) black = Some (uint v - black)" by (rule c_sub_ok)
  qed
  have i: "\<not> (w \<le> x \<or> h \<le> y)" using p by (auto simp: in_frame_def)
  show ?thesis
    using i ix(6,7) ix'
    by (simp add: apply_color_pipeline_def c_sub_ok[OF rng] sub matrix_reads[OF mt] ix(1-5)
        read_u16_def write_f32_def color_transform_def
        step_clamp_def step_exposure_def step_xyz_to_srgb_def step_cam_to_xyz_def
        affine_row_def srgb_row_def clamp01_def camera_rgb_color_only_def inv_range_of_def
        sample_norm_def Let_def nat_add_distrib)
qed

section \<open>The Color-Transform stage\<close>

lemma step_clamp_in_unit:
  "in_unit (fst (step_clamp c)) \<and> in_unit (fst (snd (step_clamp c))) \<and>
   in_unit (snd (snd (step_clamp c)))"
  by (simp add: step_clamp_def clamp01_def in_unit_def clamp_in_unit)

text \<open>
  C1.  On every pixel of the frame the Color-only kernel, and on every interior pixel the
  Demosaic kernel, stores at the pixel's three components the result of the same four
  steps applied in order to the pixel's camera RGB: the affine camera-to-XYZ matrix with
  its fourth column added as an offset, the fixed XYZ-to-sRGB matrix, the exposure factor
  3.5, and the clamp; every component the clamp returns lies in \<open>[0, 1]\<close>.
\<close>

theorem color_transform_ordered_steps:
  assumes "levels_ok black white" and "frame_ok w h out_len" and "12 \<le> length M"
  shows "(in_frame w h x y \<and> w * h * 3 \<le> int (length rgb_in) \<longrightarrow>
            apply_color_pipeline rgb_in out_len w h wb_r wb_g wb_b black white M x y =
              Some (stores_at (pixel_index w x y)
                (step_clamp (step_exposure (step_xyz_to_srgb (step_cam_to_xyz M
                   (camera_rgb_color_only rgb_in w wb_r wb_g wb_b black white x y))))))) \<and>
         (interior w h x y \<and> w * h \<le> int (length inp) \<longrightarrow>
            debayer16_to_xyz inp out_len w h wb_r wb_g wb_b black white M x y =
              Some (stores_at (pixel_index w x y)
                (step_clamp (step_exposure (step_xyz_to_srgb (step_cam_to_xyz M
                   (camera_rgb_demosaic inp w wb_r wb_g wb_b black white x y))))))) \<and>
         in_unit (fst (step_clamp c)) \<and> in_unit (fst (snd (step_clamp c))) \<and>
         in_unit (snd (snd (step_clamp c)))"
  using apply_color_pipeline_in_frame[OF assms(1) _ assms(2) _ assms(3)]
    debayer16_to_xyz_interior[OF assms(1) _ assms(2) _ assms(3)]
    step_clamp_in_unit[of c]
  by (simp add: color_transform_def)

theorem color_transform_ordered_steps_witness:
  "levels_ok 64 1023 \<and> frame_ok 3 3 27 \<and> 12 \<le> length (flit 1 # replicate 11 (flit 0)) \<and>
   in_frame 3 3 1 1 \<and> 3 * 3 * 3 \<le> int (length (replicate 27 (99 :: 16 word))) \<and>
   interior 3 3 1 1 \<and> 3 * 3 \<le> int (length (replicate 9 (99 :: 16 word))) \<and>
   apply_color_pipeline (replicate 27 99) 27 3 3 (flit 1) (flit 1) (flit 1) 64 1023
       (flit 1 # replicate 11 (flit 0)) 1 1 =
     Some (stores_at (pixel_index 3 1 1)
       (step_clamp (step_exposure (step_xyz_to_srgb (step_cam_to_xyz (flit 1 # replicate 11 (flit 0))
          (camera_rgb_color_only (replicate 27 99) 3 (flit 1) (flit 1) (flit 1) 64 1023 1 1)))))) \<and>
   debayer16_to_xyz (replicate 9 99) 27 3 3 (flit 1) (flit 1) (flit 1) 64 1023
       (flit 1 # replicate 11 (flit 0)) 1 1 =
     Some (stores_at (pixel_index 3 1 1)
       (step_clamp (step_exposure (step_xyz_to_srgb (step_cam_to_xyz (flit 1 # replicate 11 (flit 0))
          (camera_rgb_demosaic (replicate 9 99) 3 (flit 1) (flit 1) (flit 1) 64 1023 1 1))))))"
proof -
  have h1: "levels_ok 64 1023" by (simp add: levels_ok_def in_int_def)
  have h2: "frame_ok 3 3 27" by (simp add: frame_ok_def in_int_def)
  have h3: "12 \<le> length (flit 1 # replicate 11 (flit 0))" by simp
  have h4: "in_frame 3 3 1 1" by (simp add: in_frame_def)
  have h5: "3 * 3 * 3 \<le> int (length (replicate 27 (99 :: 16 word)))" by simp
  have h6: "interior 3 3 1 1" by (simp add: interior_def)
  have h7: "3 * 3 \<le> int (length (replicate 9 (99 :: 16 word)))" by simp
  show ?thesis
    using color_transform_ordered_steps[OF h1 h2 h3, of 1 1 "replicate 27 99" "flit 1" "flit 1" "flit 1"
        "replicate 9 99"] h1 h2 h3 h4 h5 h6 h7
    by blast
qed

section \<open>The Demosaic stage\<close>

text \<open>
  C2.  At every interior pixel each of \<^verbatim>\<open>get_red\<close>, \<^verbatim>\<open>get_green\<close> and \<^verbatim>\<open>get_blue\<close>
  returns the value of exactly one branch (a direct sample, the average of two samples
  or the average of four), and the branch depends on nothing but \<open>x mod 2\<close> and
  \<open>y mod 2\<close>.  The branches are those of the RGGB pattern: red is direct at (even, even),
  the left/right average at (odd, even), the up/down average at (even, odd) and the
  diagonal average at (odd, odd); green is direct where \<open>x + y\<close> is odd and the
  orthogonal average elsewhere; blue mirrors red.
\<close>

theorem rggb_parity_coverage:
  assumes "levels_ok black white" and "interior w h x y"
    and "in_int (w * h)" and "w * h \<le> int (length inp)"
  shows "get_red inp x y w black ir =
           Some (channel (red_branch (x mod 2) (y mod 2)) inp x y w black ir) \<and>
         get_green inp x y w black ir =
           Some (channel (green_branch (x mod 2) (y mod 2)) inp x y w black ir) \<and>
         get_blue inp x y w black ir =
           Some (channel (blue_branch (x mod 2) (y mod 2)) inp x y w black ir) \<and>
         red_branch 0 0 = Direct \<and> red_branch 1 0 = Horizontal \<and>
         red_branch 0 1 = Vertical \<and> red_branch 1 1 = Diagonal \<and>
         green_branch 1 0 = Direct \<and> green_branch 0 1 = Direct \<and>
         green_branch 0 0 = Orthogonal \<and> green_branch 1 1 = Orthogonal \<and>
         blue_branch 1 1 = Direct \<and> blue_branch 0 1 = Horizontal \<and>
         blue_branch 1 0 = Vertical \<and> blue_branch 0 0 = Diagonal \<and>
         length (neighbours Direct x y) = 1 \<and> length (neighbours Horizontal x y) = 2 \<and>
         length (neighbours Vertical x y) = 2 \<and> length (neighbours Diagonal x y) = 4 \<and>
         length (neighbours Orthogonal x y) = 4"
  using get_red_ok[OF assms] get_green_ok[OF assms] get_blue_ok[OF assms]
  by (simp add: red_branch_def green_branch_def blue_branch_def)

theorem rggb_parity_coverage_witness:
  "levels_ok 64 1023 \<and> interior 4 4 2 1 \<and> in_int (4 * 4) \<and>
   4 * 4 \<le> int (length [10, 20, 30, 40, 50, 60, 70, 80, 90, 100, 110, 120, 130, 140, 150, 160 :: 16 word]) \<and>
   get_red [10, 20, 30, 40, 50, 60, 70, 80, 90, 100, 110, 120, 130, 140, 150, 160] 2 1 4 64
       (inv_range_of 64 1023) =
     Some (channel (red_branch (2 mod 2) (1 mod 2))
       [10, 20, 30, 40, 50, 60, 70, 80, 90, 100, 110, 120, 130, 140, 150, 160] 2 1 4 64
       (inv_range_of 64 1023)) \<and>
   red_branch (2 mod 2) (1 mod 2) = Vertical \<and>
   neighbours Vertical 2 1 = [(2, 0), (2, 2)]"
proof -
  have h1: "levels_ok 64 1023" by (simp add: levels_ok_def in_int_def)
  have h2: "interior 4 4 2 1" by (simp add: interior_def)
  have h3: "in_int (4 * 4)" by (simp add: in_int_def)
  have h4: "4 * 4 \<le> int (length [10, 20, 30, 40, 50, 60, 70, 80, 90, 100, 110, 120, 130, 140, 150, 160 :: 16 word])"
    by simp
  have h5: "red_branch (2 mod 2) (1 mod 2) = Vertical" by (simp add: red_branch_def)
  have h6: "neighbours Vertical 2 1 = [(2, 0), (2, 2)]" by simp
  show ?thesis
    using rggb_parity_coverage[OF h1 h2 h3 h4, of "inv_range_of 64 1023"] h1 h2 h3 h4 h5 h6
    by blast
qed

section \<open>Composition\<close>

text \<open>
  C5.  Take an interior pixel and a pre-demosaiced buffer whose triplet at that pixel
  yields, after normalization and white balance, exactly the camera RGB that the Demosaic
  component reconstructs from the mosaic there.  Then the Color-only kernel stores at
  that pixel what the Demosaic kernel stores.
\<close>

theorem composition_equivalence:
  assumes "levels_ok black white" and "frame_ok w h out_len" and "12 \<le> length M"
    and "interior w h x y"
    and "w * h \<le> int (length inp)" and "w * h * 3 \<le> int (length rgb_in)"
    and "camera_rgb_color_only rgb_in w wb_r wb_g wb_b black white x y =
         camera_rgb_demosaic inp w wb_r wb_g wb_b black white x y"
  shows "apply_color_pipeline rgb_in out_len w h wb_r wb_g wb_b black white M x y =
         debayer16_to_xyz inp out_len w h wb_r wb_g wb_b black white M x y \<and>
         debayer16_to_xyz inp out_len w h wb_r wb_g wb_b black white M x y =
           Some (stores_at (pixel_index w x y)
             (color_transform M (camera_rgb_demosaic inp w wb_r wb_g wb_b black white x y)))"
  using apply_color_pipeline_in_frame[OF assms(1) interior_in_frame[OF assms(4)] assms(2,6,3)]
    debayer16_to_xyz_interior[OF assms(1,4,2,5,3)] assms(7)
  by simp

lemma synthetic_camera_rgb:
  "camera_rgb_color_only (replicate 12 0 @ [256, 512, 768] @ replicate 12 0) 3
       (flit 2) (flit 1) (flit (3 / 2)) 0 1024 1 1 =
   camera_rgb_demosaic [256, 512, 256, 512, 768, 512, 256, 512, 256] 3
       (flit 2) (flit 1) (flit (3 / 2)) 0 1024 1 1"
  by code_simp

theorem composition_equivalence_witness:
  "levels_ok 0 1024 \<and> frame_ok 3 3 27 \<and>
   12 \<le> length [flit 1, flit 0, flit 0, flit 0, flit 0, flit 1, flit 0, flit 0,
                  flit 0, flit 0, flit 1, flit 0] \<and>
   interior 3 3 1 1 \<and>
   3 * 3 \<le> int (length [256, 512, 256, 512, 768, 512, 256, 512, 256 :: 16 word]) \<and>
   3 * 3 * 3 \<le> int (length (replicate 12 0 @ [256, 512, 768] @ replicate 12 (0 :: 16 word))) \<and>
   camera_rgb_color_only (replicate 12 0 @ [256, 512, 768] @ replicate 12 0) 3
       (flit 2) (flit 1) (flit (3 / 2)) 0 1024 1 1 =
     camera_rgb_demosaic [256, 512, 256, 512, 768, 512, 256, 512, 256] 3
       (flit 2) (flit 1) (flit (3 / 2)) 0 1024 1 1 \<and>
   apply_color_pipeline (replicate 12 0 @ [256, 512, 768] @ replicate 12 0) 27 3 3
       (flit 2) (flit 1) (flit (3 / 2)) 0 1024
       [flit 1, flit 0, flit 0, flit 0, flit 0, flit 1, flit 0, flit 0,
        flit 0, flit 0, flit 1, flit 0] 1 1 =
     debayer16_to_xyz [256, 512, 256, 512, 768, 512, 256, 512, 256] 27 3 3
       (flit 2) (flit 1) (flit (3 / 2)) 0 1024
       [flit 1, flit 0, flit 0, flit 0, flit 0, flit 1, flit 0, flit 0,
        flit 0, flit 0, flit 1, flit 0] 1 1"
proof -
  have h1: "levels_ok 0 1024" by (simp add: levels_ok_def in_int_def)
  have h2: "frame_ok 3 3 27" by (simp add: frame_ok_def in_int_def)
  have h3: "12 \<le> length [flit 1, flit 0, flit 0, flit 0, flit 0, flit 1, flit 0, flit 0,
                  flit 0, flit 0, flit 1, flit 0]" by simp
  have h4: "interior 3 3 1 1" by (simp add: interior_def)
  have h5: "3 * 3 \<le> int (length [256, 512, 256, 512, 768, 512, 256, 512, 256 :: 16 word])"
    by simp
  have h6: "3 * 3 * 3 \<le> int (length (replicate 12 0 @ [256, 512, 768] @ replicate 12 (0 :: 16 word)))"
    by simp
  note h7 = synthetic_camera_rgb
  show ?thesis
    using composition_equivalence[OF h1 h2 h3 h4 h5 h6 h7] h1 h2 h3 h4 h5 h6 h7
    by blast
qed

section \<open>Range of the stored components\<close>

lemma write_clamped:
  "write_f32 n i (fminf (fmaxf v (flit 0)) (flit 1)) = Some s \<Longrightarrow> in_unit (snd s)"
  using clamp_in_unit[of v] by (auto simp: write_f32_def in_unit_def split: if_splits)

lemma apply_color_pipeline_unit:
  assumes "apply_color_pipeline rgb_in out_len w h wb_r wb_g wb_b black white M x y = Some ws"
  shows "\<forall>s \<in> set ws. in_unit (snd s)"
  using assms unfolding apply_color_pipeline_def Let_def
  by (auto split: if_splits simp: bind_eq_Some_conv dest!: write_clamped)

lemma debayer16_to_xyz_unit:
  assumes "debayer16_to_xyz inp out_len w h wb_r wb_g wb_b black white M x y = Some ws"
  shows "\<forall>s \<in> set ws. in_unit (snd s)"
  using assms unfolding debayer16_to_xyz_def Let_def
  by (auto split: if_splits simp: bind_eq_Some_conv dest!: write_clamped)

lemma debayer16_to_xyz_plain_unit:
  assumes "debayer16_to_xyz_plain inp out_len w h wb_r wb_g wb_b black white M x y = Some ws"
  shows "\<forall>s \<in> set ws. in_unit (snd s)"
  using assms unfolding debayer16_to_xyz_plain_def Let_def
  by (auto split: if_splits simp: bind_eq_Some_conv dest!: write_clamped)

text \<open>
  C10.  The clamp \<^verbatim>\<open>fminf(fmaxf(v, 0.0f), 1.0f)\<close> returns a value in \<open>[0, 1]\<close> for every
  binary32 datum, and \<open>+0\<close> for a NaN.  Hence every component that a thread of any of the
  three kernels stores lies in \<open>[0, 1]\<close>, whatever the parameters are, degenerate levels
  included.
\<close>

theorem outputs_in_unit_interval:
  "in_unit (fminf (fmaxf v (flit 0)) (flit 1)) \<and>
   fminf (fmaxf NaN (flit 0)) (flit 1) = flit 0 \<and>
   (apply_color_pipeline rgb_in n1 w1 h1 r1 g1 b1 black1 white1 M1 x1 y1 = Some ws1 \<longrightarrow>
      (\<forall>s \<in> set ws1. in_unit (snd s))) \<and>
   (debayer16_to_xyz inp2 n2 w2 h2 r2 g2 b2 black2 white2 M2 x2 y2 = Some ws2 \<longrightarrow>
      (\<forall>s \<in> set ws2. in_unit (snd s))) \<and>
   (debayer16_to_xyz_plain inp3 n3 w3 h3 r3 g3 b3 black3 white3 M3 x3 y3 = Some ws3 \<longrightarrow>
      (\<forall>s \<in> set ws3. in_unit (snd s)))"
proof -
  have a: "fminf (fmaxf NaN (flit 0)) (flit 1) = flit 0"
    unfolding clamp_cases by (simp add: flit_0)
  have b: "in_unit (fminf (fmaxf v (flit 0)) (flit 1))"
    using clamp_in_unit[of v] by (simp add: in_unit_def)
  show ?thesis
    using a b
    by (auto dest: apply_color_pipeline_unit debayer16_to_xyz_unit debayer16_to_xyz_plain_unit)
qed

lemma degenerate_levels_run:
  "apply_color_pipeline [10, 64, 99] 3 1 1 (flit 1) (flit 1) (flit 1) 64 64
     [flit 1, flit 0, flit 0, flit 0, flit 0, flit 1, flit 0, flit 0,
      flit 0, flit 0, flit 1, flit 0] 0 0 =
   Some [(0, Zero False), (1, Zero False), (2, Zero False)]"
  by code_simp

theorem outputs_in_unit_interval_witness:
  "apply_color_pipeline [10, 64, 99] 3 1 1 (flit 1) (flit 1) (flit 1) 64 64
     [flit 1, flit 0, flit 0, flit 0, flit 0, flit 1, flit 0, flit 0,
      flit 0, flit 0, flit 1, flit 0] 0 0 =
     Some [(0, Zero False), (1, Zero False), (2, Zero False)] \<and>
   in_unit (Zero False) \<and>
   debayer16_to_xyz (replicate 9 99) 27 3 3 (flit 1) (flit 1) (flit 1) 64 64
     (flit 1 # replicate 11 (flit 0)) 1 1 =
     Some (stores_at (pixel_index 3 1 1) (color_transform (flit 1 # replicate 11 (flit 0))
       (camera_rgb_demosaic (replicate 9 99) 3 (flit 1) (flit 1) (flit 1) 64 64 1 1))) \<and>
   in_unit (fst (color_transform (flit 1 # replicate 11 (flit 0))
       (camera_rgb_demosaic (replicate 9 99) 3 (flit 1) (flit 1) (flit 1) 64 64 1 1))) \<and>
   in_unit (fst (snd (color_transform (flit 1 # replicate 11 (flit 0))
       (camera_rgb_demosaic (replicate 9 99) 3 (flit 1) (flit 1) (flit 1) 64 64 1 1)))) \<and>
   in_unit (snd (snd (color_transform (flit 1 # replicate 11 (flit 0))
       (camera_rgb_demosaic (replicate 9 99) 3 (flit 1) (flit 1) (flit 1) 64 64 1 1))))"
proof -
  define c where "c = color_transform (flit 1 # replicate 11 (flit 0))
       (camera_rgb_demosaic (replicate 9 99) 3 (flit 1) (flit 1) (flit 1) 64 64 1 1)"
  have k: "debayer16_to_xyz (replicate 9 99) 27 3 3 (flit 1) (flit 1) (flit 1) 64 64
     (flit 1 # replicate 11 (flit 0)) 1 1 = Some (stores_at (pixel_index 3 1 1) c)"
    unfolding c_def
    by (rule debayer16_to_xyz_interior[where h = 3 and white = 64])
      (simp_all add: levels_ok_def frame_ok_def interior_def in_int_def)
  note t = outputs_in_unit_interval[of NaN "[10, 64, 99]" 3 1 1 "flit 1" "flit 1" "flit 1" 64 64
        "[flit 1, flit 0, flit 0, flit 0, flit 0, flit 1, flit 0, flit 0,
          flit 0, flit 0, flit 1, flit 0]" 0 0
        "[(0, Zero False), (1, Zero False), (2, Zero False)]"
        "replicate 9 99" 27 3 3 "flit 1" "flit 1" "flit 1" 64 64 "flit 1 # replicate 11 (flit 0)" 1 1
        "stores_at (pixel_index 3 1 1) c"]
  have z: "in_unit (Zero False)"
    using t degenerate_levels_run by simp
  have u: "in_unit (fst c) \<and> in_unit (fst (snd c)) \<and> in_unit (snd (snd c))"
    using t k by (cases c) simp
  show ?thesis
    using degenerate_levels_run z k u unfolding c_def by blast
qed

section \<open>Rounding and the Normalization stage\<close>

lemma pow2_eq: "pow2 k = 2 powi k"
  by (simp add: pow2_def power_int_def power_inverse inverse_eq_divide power_one_over)

lemma pow2_pos: "0 < pow2 k"
  by (simp add: pow2_eq)

lemma pow2_add: "pow2 (j + k) = pow2 j * pow2 k"
  by (simp add: pow2_eq power_int_add)

lemma pow2_0: "pow2 0 = 1"
  by (simp add: pow2_eq)

lemma pow2_1: "pow2 1 = 2"
  by (simp add: pow2_eq)

lemma pow2_Suc: "pow2 (k + 1) = 2 * pow2 k"
  by (simp add: pow2_add pow2_1)

lemma pow2_pred: "pow2 (k - 1) = pow2 k / 2"
  using pow2_Suc[of "k - 1"] by simp

lemma pow2_mono: "j \<le> k \<Longrightarrow> pow2 j \<le> pow2 k"
  by (simp add: pow2_eq power_int_increasing)

lemma pow2_nat: "0 \<le> k \<Longrightarrow> pow2 k = of_int (2 ^ nat k)"
  by (simp add: pow2_def)

lemma exp_up_spec:
  "1 \<le> a \<Longrightarrow>
     e \<le> exp_up n a e \<and> exp_up n a e \<le> e + int n \<and>
     pow2 (exp_up n a e - e) \<le> a \<and>
     (exp_up n a e < e + int n \<longrightarrow> a < pow2 (exp_up n a e - e + 1))"
proof (induction n arbitrary: a e)
  case 0
  then show ?case by (simp add: pow2_0)
next
  case (Suc n)
  show ?case
  proof (cases "2 \<le> a")
    case True
    then have "1 \<le> a / 2" by simp
    from Suc.IH[OF this, of "e + 1"] True show ?thesis
      using pow2_Suc[of "exp_up n (a / 2) (e + 1) - (e + 1)"]
        pow2_Suc[of "exp_up n (a / 2) (e + 1) - (e + 1) + 1"]
      by (simp add: algebra_simps)
  next
    case False
    with Suc.prems show ?thesis by (simp add: pow2_0 pow2_1)
  qed
qed

lemma exp_down_spec:
  "0 < a \<Longrightarrow> a < 2 \<Longrightarrow>
     e - int n \<le> exp_down n a e \<and> exp_down n a e \<le> e \<and>
     a < pow2 (exp_down n a e - e + 1) \<and>
     (e - int n < exp_down n a e \<longrightarrow> pow2 (exp_down n a e - e) \<le> a)"
proof (induction n arbitrary: a e)
  case 0
  then show ?case by (simp add: pow2_1)
next
  case (Suc n)
  show ?case
  proof (cases "a < 1")
    case True
    with Suc.prems have "0 < a * 2" "a * 2 < 2" by simp_all
    from Suc.IH[OF this, of "e - 1"] True show ?thesis
      using pow2_Suc[of "exp_down n (a * 2) (e - 1) - e + 1"]
        pow2_Suc[of "exp_down n (a * 2) (e - 1) - e"]
      by (simp add: algebra_simps)
  next
    case False
    with Suc.prems show ?thesis by (simp add: pow2_0 pow2_1)
  qed
qed

lemma binade_range: "0 < a \<Longrightarrow> - 126 \<le> binade a \<and> binade a \<le> 128"
  using exp_up_spec[of a 0 128] exp_down_spec[of a 0 126]
  by (auto simp: binade_def)

lemma binade_lower: "0 < a \<Longrightarrow> - 126 < binade a \<Longrightarrow> pow2 (binade a) \<le> a"
  using exp_up_spec[of a 0 128] exp_down_spec[of a 0 126]
  by (auto simp: binade_def split: if_splits)

lemma binade_upper: "0 < a \<Longrightarrow> binade a < 128 \<Longrightarrow> a < pow2 (binade a + 1)"
  using exp_up_spec[of a 0 128] exp_down_spec[of a 0 126]
  by (auto simp: binade_def split: if_splits)

lemma binade_mono:
  assumes "0 < a" "a \<le> b"
  shows "binade a \<le> binade b"
proof (rule ccontr)
  assume "\<not> binade a \<le> binade b"
  then have lt: "binade b < binade a" by simp
  have b0: "0 < b" using assms by simp
  from lt binade_range[OF assms(1)] binade_range[OF b0]
  have "- 126 < binade a" "binade b < 128" by linarith+
  from binade_lower[OF assms(1) this(1)] binade_upper[OF b0 this(2)] assms(2)
  have "pow2 (binade a) < pow2 (binade b + 1)" by linarith
  moreover have "pow2 (binade b + 1) \<le> pow2 (binade a)" using lt by (intro pow2_mono) simp
  ultimately show False by simp
qed

lemma binade_eqI:
  assumes "pow2 e \<le> a" "a < pow2 (e + 1)" "- 126 \<le> e" "e \<le> 127"
  shows "binade a = e"
proof -
  have a0: "0 < a" using assms(1) pow2_pos[of e] by linarith
  note r = binade_range[OF a0]
  show ?thesis
  proof (rule ccontr)
    assume ne: "binade a \<noteq> e"
    show False
    proof (cases "binade a < e")
      case True
      then have "binade a < 128" using assms(4) by simp
      from binade_upper[OF a0 this] have "a < pow2 (binade a + 1)" .
      moreover have "pow2 (binade a + 1) \<le> pow2 e" using True by (intro pow2_mono) simp
      ultimately show False using assms(1) by simp
    next
      case False
      with ne have gt: "e < binade a" by simp
      then have "- 126 < binade a" using assms(3) by simp
      from binade_lower[OF a0 this] have "pow2 (binade a) \<le> a" .
      moreover have "pow2 (e + 1) \<le> pow2 (binade a)" using gt by (intro pow2_mono) simp
      ultimately show False using assms(2) by simp
    qed
  qed
qed


lemma round_half_even_bounds:
  "\<lfloor>q\<rfloor> \<le> round_half_even q \<and> round_half_even q \<le> \<lfloor>q\<rfloor> + 1"
  by (simp add: round_half_even_def nearest_even_def)

lemma round_half_even_of_int: "round_half_even (of_int n) = n"
  by (simp add: round_half_even_def nearest_even_def)

lemma round_half_even_mono:
  assumes "q1 \<le> q2"
  shows "round_half_even q1 \<le> round_half_even q2"
proof (cases "\<lfloor>q1\<rfloor> = \<lfloor>q2\<rfloor>")
  case True
  with assms show ?thesis
    by (auto simp: round_half_even_def nearest_even_def)
next
  case False
  with floor_mono[OF assms] have "\<lfloor>q1\<rfloor> + 1 \<le> \<lfloor>q2\<rfloor>" by simp
  with round_half_even_bounds[of q1] round_half_even_bounds[of q2] show ?thesis by linarith
qed


lemma pow2_24: "pow2 (k + 1) = of_int (2 ^ 24) * pow2 (k - 23)"
proof -
  have "pow2 (24 + (k - 23)) = pow2 24 * pow2 (k - 23)" by (rule pow2_add)
  moreover have "24 + (k - 23) = k + 1" by simp
  ultimately show ?thesis by (simp add: pow2_nat)
qed

lemma pow2_23: "pow2 k = of_int (2 ^ 23) * pow2 (k - 23)"
proof -
  have "pow2 (23 + (k - 23)) = pow2 23 * pow2 (k - 23)" by (rule pow2_add)
  moreover have "23 + (k - 23) = k" by simp
  ultimately show ?thesis by (simp add: pow2_nat)
qed

text \<open>The rounded magnitude of a positive number.\<close>

lemma on_grid_mono:
  assumes "0 < a" "a \<le> b"
  shows "on_grid a (quantum a) \<le> on_grid b (quantum b)"
proof (cases "binade a = binade b")
  case True
  then have q: "quantum a = quantum b" by (simp add: quantum_def)
  have ub: "0 < quantum b" by (simp add: quantum_def pow2_pos)
  have "a / quantum b \<le> b / quantum b"
    using assms ub by (simp add: divide_right_mono)
  from round_half_even_mono[OF this]
  have "(of_int (round_half_even (a / quantum b)) :: rat) \<le>
        of_int (round_half_even (b / quantum b))"
    unfolding of_int_le_iff .
  then have "on_grid a (quantum b) \<le> on_grid b (quantum b)"
    unfolding on_grid_def using ub by (rule mult_right_mono[OF _ less_imp_le])
  then show ?thesis unfolding q .
next
  case False
  have b0: "0 < b" using assms by simp
  from False binade_mono[OF assms] have lt: "binade a < binade b" by simp
  note ra = binade_range[OF assms(1)] and rb = binade_range[OF b0]
  have ua: "0 < quantum a" and ub: "0 < quantum b" by (simp_all add: quantum_def pow2_pos)
  have "binade a < 128" using lt rb by simp
  from binade_upper[OF assms(1) this] have "a < pow2 (binade a + 1)" .
  also have "\<dots> = of_int (2 ^ 24) * quantum a"
    unfolding quantum_def by (rule pow2_24)
  finally have "a / quantum a \<le> of_int (2 ^ 24)"
    using ua by (simp add: pos_divide_le_eq)
  from round_half_even_mono[OF this]
  have "round_half_even (a / quantum a) \<le> 2 ^ 24"
    unfolding round_half_even_of_int .
  then have "of_int (round_half_even (a / quantum a)) \<le> (of_int (2 ^ 24) :: rat)"
    unfolding of_int_le_iff .
  then have "on_grid a (quantum a) \<le> of_int (2 ^ 24) * quantum a"
    using ua by (simp add: on_grid_def)
  also have "\<dots> = pow2 (binade a + 1)"
    unfolding quantum_def by (rule pow2_24[symmetric])
  also have "\<dots> \<le> pow2 (binade b)" using lt by (intro pow2_mono) simp
  also have "\<dots> = of_int (2 ^ 23) * quantum b"
    unfolding quantum_def by (rule pow2_23)
  also have "\<dots> \<le> on_grid b (quantum b)"
  proof -
    have "- 126 < binade b" using lt ra by simp
    from binade_lower[OF b0 this] have "pow2 (binade b) \<le> b" .
    then have "of_int (2 ^ 23) * quantum b \<le> b"
      unfolding quantum_def pow2_23[symmetric] .
    then have "of_int (2 ^ 23) \<le> b / quantum b"
      using ub by (simp add: pos_le_divide_eq)
    from round_half_even_mono[OF this]
    have "2 ^ 23 \<le> round_half_even (b / quantum b)"
      unfolding round_half_even_of_int .
    then have "(of_int (2 ^ 23) :: rat) \<le> of_int (round_half_even (b / quantum b))"
      unfolding of_int_le_iff .
    then show ?thesis using ub by (simp add: on_grid_def)
  qed
  finally show ?thesis .
qed

lemma on_grid_nonneg: "0 \<le> a \<Longrightarrow> 0 \<le> on_grid a (quantum a)"
proof -
  assume "0 \<le> a"
  then have "0 \<le> a / quantum a" using pow2_pos[of "binade a - 23"] by (simp add: quantum_def)
  from round_half_even_mono[OF this] have "0 \<le> round_half_even (a / quantum a)"
    using round_half_even_of_int[of 0] by simp
  then show ?thesis using pow2_pos[of "binade a - 23"] by (simp add: on_grid_def quantum_def)
qed

lemma on_grid_pow2:
  assumes "- 126 \<le> k" "k \<le> 127"
  shows "on_grid (pow2 k) (quantum (pow2 k)) = pow2 k"
proof -
  have b: "binade (pow2 k) = k"
    using assms pow2_mono[of k "k + 1"] pow2_Suc[of k] pow2_pos[of k]
    by (intro binade_eqI) simp_all
  have u: "0 < pow2 (k - 23)" by (rule pow2_pos)
  have e: "pow2 k = of_int (2 ^ 23) * pow2 (k - 23)"
    by (rule pow2_23)
  have "pow2 k / pow2 (k - 23) = of_int (2 ^ 23)"
    unfolding e using u by simp
  then have "on_grid (pow2 k) (pow2 (k - 23)) = of_int (2 ^ 23) * pow2 (k - 23)"
    unfolding on_grid_def by (simp only: round_half_even_of_int)
  then show ?thesis unfolding quantum_def b e[symmetric] .
qed


lemma round_mag_mono: "0 < a \<Longrightarrow> a \<le> b \<Longrightarrow> round_mag a \<le> round_mag b"
  unfolding round_mag_def by (rule on_grid_mono)

lemma round_mag_0: "round_mag 0 = 0"
  by (simp add: round_mag_def on_grid_def round_half_even_def nearest_even_def)

lemma round_mag_nonneg: "0 \<le> a \<Longrightarrow> 0 \<le> round_mag a"
  unfolding round_mag_def by (rule on_grid_nonneg)

lemma round_mag_mono0: "0 \<le> a \<Longrightarrow> a \<le> b \<Longrightarrow> round_mag a \<le> round_mag b"
  using round_mag_mono[of a b] round_mag_nonneg[of b] by (cases "a = 0") (auto simp: round_mag_0)

lemma round_mag_pow2: "- 126 \<le> k \<Longrightarrow> k \<le> 127 \<Longrightarrow> round_mag (pow2 k) = pow2 k"
  unfolding round_mag_def by (rule on_grid_pow2)

lemma round_mag_between:
  assumes "pow2 j \<le> a" "a \<le> pow2 k" "- 126 \<le> j" "j \<le> 127" "- 126 \<le> k" "k \<le> 127"
  shows "pow2 j \<le> round_mag a \<and> round_mag a \<le> pow2 k"
proof -
  have a0: "0 < a" using assms(1) pow2_pos[of j] by linarith
  from round_mag_mono[OF pow2_pos assms(1)] round_mag_mono[OF a0 assms(2)]
  show ?thesis by (simp add: round_mag_pow2 assms)
qed

lemma pack_Val: "0 < r \<Longrightarrow> r < pow2 128 \<Longrightarrow> pack s r = Val (if s then - r else r)"
  by (simp add: pack_def)

lemma pack_le:
  assumes "0 \<le> r1" "r1 \<le> r2"
  shows "fle (pack False r1) (pack False r2)"
  using assms by (auto simp: pack_def fle_def)

text \<open>Conversion of an \<^verbatim>\<open>int\<close>: exact sign, magnitude at least 1 and at most \<open>2^31\<close>.\<close>

lemma i2f_pos:
  assumes "0 < n" "n \<le> 2147483648"
  shows "i2f n = Val (round_mag (of_int n)) \<and> 1 \<le> round_mag (of_int n) \<and>
         round_mag (of_int n) \<le> pow2 31"
proof -
  have "pow2 0 \<le> (of_int n :: rat)" using assms by (simp add: pow2_0)
  moreover have "(of_int n :: rat) \<le> pow2 31"
  proof -
    have "(of_int n :: rat) \<le> of_int 2147483648" using assms(2) unfolding of_int_le_iff .
    then show ?thesis by (simp add: pow2_nat)
  qed
  ultimately have b: "pow2 0 \<le> round_mag (of_int n) \<and> round_mag (of_int n) \<le> pow2 31"
    by (intro round_mag_between) simp_all
  have "pow2 31 < pow2 128" by (simp add: pow2_nat)
  with b have "0 < round_mag (of_int n)" "round_mag (of_int n) < pow2 128"
    by (simp_all add: pow2_0)
  from pack_Val[OF this] assms b show ?thesis
    by (simp add: i2f_def round32_def pow2_0)
qed

lemma i2f_neg:
  assumes "n < 0" "- 2147483648 \<le> n"
  shows "i2f n = Val (- round_mag (of_int (- n))) \<and> 1 \<le> round_mag (of_int (- n))"
proof -
  have "pow2 0 \<le> (of_int (- n) :: rat)" using assms by (simp add: pow2_0)
  moreover have "(of_int (- n) :: rat) \<le> pow2 31"
  proof -
    have "(of_int (- n) :: rat) \<le> of_int 2147483648" using assms(2) unfolding of_int_le_iff by simp
    then show ?thesis by (simp add: pow2_nat)
  qed
  ultimately have b: "pow2 0 \<le> round_mag (of_int (- n)) \<and> round_mag (of_int (- n)) \<le> pow2 31"
    by (intro round_mag_between) simp_all
  have "pow2 31 < pow2 128" by (simp add: pow2_nat)
  with b have "0 < round_mag (of_int (- n))" "round_mag (of_int (- n)) < pow2 128"
    by (simp_all add: pow2_0)
  from pack_Val[OF this] assms b show ?thesis
    by (simp add: i2f_def round32_def pow2_0 abs_if)
qed

lemma i2f_0: "i2f 0 = Zero False"
  by (simp add: i2f_def round32_def)


lemma round32_pos: "0 < q \<Longrightarrow> round32 s q = pack False (round_mag q)"
  by (simp add: round32_def)

lemma round32_neg: "q < 0 \<Longrightarrow> round32 s q = pack True (round_mag (- q))"
  by (simp add: round32_def)

lemma round32_0: "round32 s 0 = Zero s"
  by (simp add: round32_def)

lemma inv_range_pos:
  assumes "0 < rng" "rng \<le> 2147483647"
  shows "\<exists>r p. i2f rng = Val r \<and> 1 \<le> r \<and> fdiv (flit 1) (i2f rng) = Val p \<and> 0 < p"
proof -
  from i2f_pos[of rng] assms obtain r where
    r: "i2f rng = Val r" "1 \<le> r" "r \<le> pow2 31" by auto
  have "pow2 (- 31) \<le> 1 / r"
  proof -
    have "pow2 (- 31) * pow2 31 = 1" using pow2_add[of "- 31" 31] by (simp add: pow2_0)
    then have "pow2 (- 31) = 1 / pow2 31" using pow2_pos[of 31] by (simp add: field_simps)
    also have "\<dots> \<le> 1 / r" using r by (intro divide_left_mono) simp_all
    finally show ?thesis .
  qed
  moreover have "1 / r \<le> pow2 0" using r by (simp add: pow2_0)
  ultimately have b: "pow2 (- 31) \<le> round_mag (1 / r) \<and> round_mag (1 / r) \<le> pow2 0"
    by (intro round_mag_between) simp_all
  have "pow2 0 < pow2 128" by (simp add: pow2_nat)
  with b pow2_pos[of "- 31"] have "0 < round_mag (1 / r)" "round_mag (1 / r) < pow2 128"
    by linarith+
  from pack_Val[OF this, of False] have "pack False (round_mag (1 / r)) = Val (round_mag (1 / r))"
    by simp
  moreover have "fdiv (flit 1) (i2f rng) = pack False (round_mag (1 / r))"
    using r by (simp add: fdiv_def flit_1 round32_pos)
  ultimately show ?thesis using r \<open>0 < round_mag (1 / r)\<close> by auto
qed

lemma fmaxf_pack_pos: "0 \<le> r \<Longrightarrow> fmaxf (pack False r) (flit 0) = pack False r"
  by (auto simp: pack_def fmaxf_def flit_0)

lemma fmaxf_pack_neg: "0 \<le> r \<Longrightarrow> fmaxf (pack True r) (flit 0) = Zero False"
  by (auto simp: pack_def fmaxf_def flit_0)

text \<open>The value of \<^verbatim>\<open>fmaxf((float)v * inv_range, 0.0f)\<close> for a positive \<open>inv_range\<close>.\<close>

lemma reciprocal_norm:
  assumes "in_int v" "0 < p"
  shows "fmaxf (fmul (i2f v) (Val p)) (flit 0) =
           (if v \<le> 0 then Zero False
            else pack False (round_mag (round_mag (of_int v) * p)))"
proof -
  from assms(1) have v: "- 2147483648 \<le> v" "v \<le> 2147483648" by (simp_all add: in_int_def)
  consider "v = 0" | "v < 0" | "0 < v" by linarith
  then show ?thesis
  proof cases
    case 1
    then show ?thesis using assms(2)
      by (simp add: i2f_0 fmul_def round32_0 fmaxf_def flit_0)
  next
    case 2
    from i2f_neg[OF 2 v(1)] obtain g where
      g: "i2f v = Val (- g)" "1 \<le> g" by auto
    then have "fmul (i2f v) (Val p) = pack True (round_mag (g * p))"
      using assms(2) by (simp add: fmul_def round32_neg mult_pos_pos)
    moreover have "0 \<le> round_mag (g * p)" using g assms(2) by (intro round_mag_nonneg) simp
    ultimately show ?thesis using 2 by (simp add: fmaxf_pack_neg)
  next
    case 3
    from i2f_pos[OF 3 v(2)] have
      g: "i2f v = Val (round_mag (of_int v))" "1 \<le> round_mag (of_int v)" by auto
    then have "fmul (i2f v) (Val p) = pack False (round_mag (round_mag (of_int v) * p))"
      using assms(2) by (simp add: fmul_def round32_pos mult_pos_pos)
    moreover have "0 \<le> round_mag (round_mag (of_int v) * p)"
      using g assms(2) by (intro round_mag_nonneg) simp
    ultimately show ?thesis using 3 by (simp add: fmaxf_pack_pos)
  qed
qed

text \<open>The value of \<^verbatim>\<open>(float)v / range\<close> after \<^verbatim>\<open>if (v < 0) v = 0\<close>, for a range of at least 1.\<close>

lemma division_norm:
  assumes "in_int v" "1 \<le> r"
  shows "fdiv (i2f (if v < 0 then 0 else v)) (Val r) =
           (if v \<le> 0 then Zero False
            else pack False (round_mag (round_mag (of_int v) / r)))"
proof (cases "v \<le> 0")
  case True
  then have "(if v < 0 then 0 else v) = 0" by simp
  then show ?thesis using True assms(2)
    by (simp add: i2f_0 fdiv_def round32_0)
next
  case False
  then have 3: "0 < v" by simp
  from assms(1) have v: "v \<le> 2147483648" by (simp add: in_int_def)
  from i2f_pos[OF 3 v] have
    g: "i2f v = Val (round_mag (of_int v))" "1 \<le> round_mag (of_int v)" by auto
  then show ?thesis using 3 assms(2)
    by (simp add: fdiv_def round32_pos)
qed


lemma pack_0: "pack s 0 = Zero s"
  using pow2_pos[of 128] by (simp add: pack_def)

lemma norm_shape_mono:
  fixes f :: "rat \<Rightarrow> rat"
  assumes m: "\<And>x y. 0 < x \<Longrightarrow> x \<le> y \<Longrightarrow> f x \<le> f y"
    and n: "\<And>x. 0 < x \<Longrightarrow> 0 \<le> f x" and v: "v1 \<le> v2"
  shows "fle (if v1 \<le> 0 then Zero False else pack False (f (of_int v1)))
             (if v2 \<le> (0::int) then Zero False else pack False (f (of_int v2)))"
proof (cases "v1 \<le> 0")
  case True
  show ?thesis
  proof (cases "v2 \<le> 0")
    case True
    with \<open>v1 \<le> 0\<close> show ?thesis by (simp add: fle_def)
  next
    case False
    then have "0 \<le> f (of_int v2)" by (intro n) simp
    from pack_le[OF order_refl this] True False show ?thesis by (simp add: pack_0)
  qed
next
  case False
  then have p: "0 < v1" "0 < v2" using v by simp_all
  then have "(0::rat) < of_int v1" "(of_int v1 :: rat) \<le> of_int v2" using v by simp_all
  from n[OF this(1)] m[OF this] have "0 \<le> f (of_int v1)" "f (of_int v1) \<le> f (of_int v2)" .
  from pack_le[OF this] p show ?thesis by simp
qed

lemma sample_in_int:
  assumes "levels_ok black white"
  shows "in_int (uint (val :: 16 word) - black)"
proof -
  have "0 \<le> uint val" "uint val \<le> 65535" using uint_bounded[of val] by simp_all
  then show ?thesis using assms unfolding levels_ok_def in_int_def by linarith
qed

lemma normalize_ok:
  assumes "levels_ok black white"
  shows "normalize black rf val =
           Some (fdiv (i2f (if uint val - black < 0 then 0 else uint val - black)) rf)"
  by (simp add: normalize_def c_sub_ok[OF sample_in_int[OF assms]] Let_def)

text \<open>Both normalizations in closed form, for well-formed levels with \<open>black < white\<close>.\<close>

lemma normalizations_closed:
  assumes lv: "levels_ok black white" and bw: "black < white"
  shows "\<exists>r p. 1 \<le> r \<and> 0 < p \<and> i2f (white - black) = Val r \<and>
           inv_range_of black white = Val p \<and>
           (\<forall>val. normalize_pixel val black (inv_range_of black white) =
              Some (if uint val - black \<le> 0 then Zero False
                    else pack False (round_mag (round_mag (of_int (uint val - black)) * p)))) \<and>
           (\<forall>val. normalize black (i2f (white - black)) val =
              Some (if uint val - black \<le> 0 then Zero False
                    else pack False (round_mag (round_mag (of_int (uint val - black)) / r))))"
proof -
  have rng: "0 < white - black" "white - black \<le> 2147483647"
    using lv bw by (simp_all add: levels_ok_def in_int_def)
  from inv_range_pos[OF rng] obtain r p where
    rp: "i2f (white - black) = Val r" "1 \<le> r" "fdiv (flit 1) (i2f (white - black)) = Val p" "0 < p"
    by blast
  have a: "normalize_pixel val black (inv_range_of black white) =
              Some (if uint val - black \<le> 0 then Zero False
                    else pack False (round_mag (round_mag (of_int (uint val - black)) * p)))" for val
    using reciprocal_norm[OF sample_in_int[OF lv] rp(4), of val]
    by (simp add: normalize_pixel_ok[OF lv] sample_norm_def inv_range_of_def rp(3))
  have b: "normalize black (i2f (white - black)) val =
              Some (if uint val - black \<le> 0 then Zero False
                    else pack False (round_mag (round_mag (of_int (uint val - black)) / r)))" for val
    using division_norm[OF sample_in_int[OF lv] rp(2), of val]
    by (simp add: normalize_ok[OF lv] rp(1))
  show ?thesis using rp a b unfolding inv_range_of_def by blast
qed

text \<open>
  C8.  For fixed levels with \<open>black_level < white_level\<close> both normalizations (the helper
  \<^verbatim>\<open>normalize_pixel\<close> with the precomputed reciprocal, and the dividing closure of the
  second kernel) are monotone in the raw sample, return \<open>+0\<close> for every sample at or
  below the black level, the black level itself included, and never return a negative
  value or a NaN.
\<close>

theorem normalization_monotone:
  assumes "levels_ok black white" and "black < white"
  shows "\<exists>na nb ma mb.
           normalize_pixel a black (inv_range_of black white) = Some na \<and>
           normalize_pixel b black (inv_range_of black white) = Some nb \<and>
           normalize black (i2f (white - black)) a = Some ma \<and>
           normalize black (i2f (white - black)) b = Some mb \<and>
           (a \<le> b \<longrightarrow> fle na nb \<and> fle ma mb) \<and>
           (uint a \<le> black \<longrightarrow> na = flit 0 \<and> ma = flit 0) \<and>
           fle (flit 0) na \<and> fle (flit 0) ma"
proof -
  from normalizations_closed[OF assms] obtain r p where
    rp: "1 \<le> r" "0 < p"
    and n: "\<And>val. normalize_pixel val black (inv_range_of black white) =
              Some (if uint val - black \<le> 0 then Zero False
                    else pack False (round_mag (round_mag (of_int (uint val - black)) * p)))"
    and m: "\<And>val. normalize black (i2f (white - black)) val =
              Some (if uint val - black \<le> 0 then Zero False
                    else pack False (round_mag (round_mag (of_int (uint val - black)) / r)))"
    by blast
  define f where "f x = round_mag (round_mag x * p)" for x
  define g where "g x = round_mag (round_mag x / r)" for x
  have fm: "f x \<le> f y" if "0 < x" "x \<le> y" for x y
    unfolding f_def using that rp round_mag_mono[OF that] round_mag_nonneg[of x]
    by (intro round_mag_mono0 mult_nonneg_nonneg mult_right_mono) simp_all
  have fn: "0 \<le> f x" if "0 < x" for x
    unfolding f_def using that rp round_mag_nonneg[of x]
    by (intro round_mag_nonneg mult_nonneg_nonneg) simp_all
  have gm: "g x \<le> g y" if "0 < x" "x \<le> y" for x y
    unfolding g_def using that rp round_mag_mono[OF that] round_mag_nonneg[of x]
    by (intro round_mag_mono0 divide_nonneg_nonneg divide_right_mono) simp_all
  have gn: "0 \<le> g x" if "0 < x" for x
    unfolding g_def using that rp round_mag_nonneg[of x]
    by (intro round_mag_nonneg divide_nonneg_nonneg) simp_all
  have le: "uint a - black \<le> uint b - black" if "a \<le> b"
    using that by (simp add: word_le_def)
  have z: "fle (flit 0) (if v \<le> (0::int) then Zero False else pack False (h (of_int v)))"
    if "\<And>x. 0 < x \<Longrightarrow> 0 \<le> h x" for h :: "rat \<Rightarrow> rat" and v
    using pack_le[of 0 "h (of_int v)"] that[of "of_int v"]
    by (auto simp: flit_0 pack_0 fle_def)
  let ?N = "\<lambda>val :: 16 word. if uint val - black \<le> 0 then Zero False
                else pack False (f (of_int (uint val - black)))"
  let ?M = "\<lambda>val :: 16 word. if uint val - black \<le> 0 then Zero False
                else pack False (g (of_int (uint val - black)))"
  have nn: "normalize_pixel val black (inv_range_of black white) = Some (?N val)" for val
    unfolding f_def by (rule n)
  have mm: "normalize black (i2f (white - black)) val = Some (?M val)" for val
    unfolding g_def by (rule m)
  have 1: "a \<le> b \<longrightarrow> fle (?N a) (?N b) \<and> fle (?M a) (?M b)"
    using norm_shape_mono[of f, OF fm fn le] norm_shape_mono[of g, OF gm gn le] by blast
  have 2: "uint a \<le> black \<longrightarrow> ?N a = flit 0 \<and> ?M a = flit 0"
    by (simp add: flit_0)
  have 3: "fle (flit 0) (?N a)" "fle (flit 0) (?M a)"
    using z[of f, OF fn] z[of g, OF gn] by blast+
  show ?thesis
    using nn[of a] nn[of b] mm[of a] mm[of b] 1 2 3 by blast
qed


theorem normalization_monotone_witness:
  "levels_ok 64 1023 \<and> (64 :: int) < 1023 \<and> (100 :: 16 word) \<le> 200 \<and>
   uint (50 :: 16 word) \<le> 64 \<and>
   (\<exists>na nb ma mb.
      normalize_pixel 100 64 (inv_range_of 64 1023) = Some na \<and>
      normalize_pixel 200 64 (inv_range_of 64 1023) = Some nb \<and>
      normalize 64 (i2f (1023 - 64)) 100 = Some ma \<and>
      normalize 64 (i2f (1023 - 64)) 200 = Some mb \<and>
      fle na nb \<and> fle ma mb \<and> fle (flit 0) na \<and> fle (flit 0) ma) \<and>
   normalize_pixel 50 64 (inv_range_of 64 1023) = Some (flit 0) \<and>
   normalize 64 (i2f (1023 - 64)) 50 = Some (flit 0)"
proof -
  have h1: "levels_ok 64 1023" by (simp add: levels_ok_def in_int_def)
  have h2: "(64 :: int) < 1023" by simp
  have h3: "(100 :: 16 word) \<le> 200" by simp
  have h4: "uint (50 :: 16 word) \<le> 64" by simp
  from normalization_monotone[OF h1 h2, of 100 200] h3
  have a: "\<exists>na nb ma mb.
      normalize_pixel 100 64 (inv_range_of 64 1023) = Some na \<and>
      normalize_pixel 200 64 (inv_range_of 64 1023) = Some nb \<and>
      normalize 64 (i2f (1023 - 64)) 100 = Some ma \<and>
      normalize 64 (i2f (1023 - 64)) 200 = Some mb \<and>
      fle na nb \<and> fle ma mb \<and> fle (flit 0) na \<and> fle (flit 0) ma"
    by blast
  from normalization_monotone[OF h1 h2, of 50 50] h4
  have b: "normalize_pixel 50 64 (inv_range_of 64 1023) = Some (flit 0)"
    "normalize 64 (i2f (1023 - 64)) 50 = Some (flit 0)"
    by auto
  show ?thesis using h1 h2 h3 h4 a b by blast
qed

text \<open>
  C7 (as amended).  Multiplying by the precomputed reciprocal gives the same bits as
  dividing when \<open>white_level - black_level\<close> is a power of two (the reciprocal is then
  exact), and for every sample at or below the black level (both give \<open>+0\<close>).
\<close>

theorem reciprocal_agrees_with_division:
  assumes "levels_ok black white" and "black < white"
    and "(\<exists>k. white - black = 2 ^ k) \<or> uint val \<le> black"
  shows "normalize_pixel val black (inv_range_of black white) =
         normalize black (i2f (white - black)) val"
proof -
  from normalizations_closed[OF assms(1,2)] obtain r p where
    rp: "1 \<le> r" "0 < p" "i2f (white - black) = Val r" "inv_range_of black white = Val p"
    and n: "\<And>val. normalize_pixel val black (inv_range_of black white) =
              Some (if uint val - black \<le> 0 then Zero False
                    else pack False (round_mag (round_mag (of_int (uint val - black)) * p)))"
    and m: "\<And>val. normalize black (i2f (white - black)) val =
              Some (if uint val - black \<le> 0 then Zero False
                    else pack False (round_mag (round_mag (of_int (uint val - black)) / r)))"
    by blast
  show ?thesis
  proof (cases "uint val \<le> black")
    case True
    then show ?thesis by (simp add: n m)
  next
    case False
    with assms(3) obtain k :: nat where k: "white - black = 2 ^ k" by blast
    have "(2::int) ^ k < 2 ^ 31"
      using assms(1) k by (simp add: levels_ok_def in_int_def)
    from power_less_imp_less_exp[OF _ this] have k31: "k < 31" by simp
    have pk: "pow2 (int k) = of_int (2 ^ k)" by (simp add: pow2_nat)
    have "0 < white - black" "white - black \<le> 2147483648"
      using assms(1,2) by (simp_all add: levels_ok_def in_int_def)
    from i2f_pos[OF this] have "i2f (white - black) = Val (round_mag (of_int (white - black)))"
      by simp
    also have "round_mag (of_int (white - black)) = pow2 (int k)"
      unfolding k pk[symmetric] using k31 by (intro round_mag_pow2) simp_all
    finally have r: "r = pow2 (int k)" using rp(3) by simp
    have inv: "1 / pow2 (int k) = pow2 (- int k)"
      using pow2_add[of "int k" "- int k"] pow2_pos[of "int k"]
      by (simp add: pow2_0 field_simps)
    have "fdiv (flit 1) (Val (pow2 (int k))) = pack False (round_mag (1 / pow2 (int k)))"
      using pow2_pos[of "int k"] by (simp add: fdiv_def flit_1 round32_pos)
    also have "round_mag (1 / pow2 (int k)) = pow2 (- int k)"
      unfolding inv using k31 by (intro round_mag_pow2) simp_all
    also have "pack False (pow2 (- int k)) = Val (pow2 (- int k))"
    proof -
      have "pow2 (- int k) \<le> pow2 0" by (intro pow2_mono) simp
      moreover have "pow2 0 < pow2 128" by (simp add: pow2_nat)
      ultimately show ?thesis using pack_Val[OF pow2_pos, of "- int k" False] by simp
    qed
    finally have p: "p = pow2 (- int k)"
      using rp(3,4) r by (simp add: inv_range_of_def)
    have "x * p = x / r" for x
      unfolding p r inv[symmetric] by simp
    then show ?thesis by (simp add: n m)
  qed
qed

theorem reciprocal_agrees_with_division_witness:
  "levels_ok 0 1024 \<and> (0 :: int) < 1024 \<and>
   ((\<exists>k. (1024 :: int) - 0 = 2 ^ k) \<or> uint (300 :: 16 word) \<le> 0) \<and>
   normalize_pixel 300 0 (inv_range_of 0 1024) = normalize 0 (i2f (1024 - 0)) 300"
proof -
  have h1: "levels_ok 0 1024" by (simp add: levels_ok_def in_int_def)
  have h2: "(0 :: int) < 1024" by simp
  have "(1024 :: int) - 0 = 2 ^ 10" by simp
  then have h3: "(\<exists>k. (1024 :: int) - 0 = 2 ^ k) \<or> uint (300 :: 16 word) \<le> 0" by blast
  show ?thesis
    using reciprocal_agrees_with_division[OF h1 h2 h3] h1 h2 h3 by blast
qed

text \<open>
  C7 (as stated) fails: with black level 64 and white level 1023 the sample 99 is
  normalized to \<open>9796915 / 2^28\<close> by the reciprocal and to \<open>9796914 / 2^28\<close> by the
  division.
\<close>

theorem reciprocal_differs_from_division:
  "normalize_pixel 99 64 (inv_range_of 64 1023) \<noteq> normalize 64 (i2f (1023 - 64)) 99"
  by code_simp

section \<open>The second kernel on well-formed calls\<close>


lemma c_rem_2: "0 \<le> x \<Longrightarrow> c_rem x 2 = x mod 2"
  by (cases "x = 0") (auto simp: c_rem_def sgn_if minus_mult_div_eq_mod mult.commute)

lemma normalize_at_ok:
  assumes "levels_ok black white" "0 \<le> a" "a < w" "0 \<le> b" "b < h" "in_int (w * h)"
    "w * h \<le> int (length inp)"
  shows "normalize_at inp a b w black rf = Some (sample_at_plain inp w black rf (a, b))"
  by (simp add: normalize_at_def PIX_ok[OF assms(2-7)] normalize_ok[OF assms(1)]
      sample_at_plain_def sample_norm_plain_def)


lemma get_red_plain_ok:
  assumes lv: "levels_ok black white" and it: "interior w h x y"
    and sz: "in_int (w * h)" "w * h \<le> int (length inp)"
  shows "get_red_plain inp x y w black rf =
           Some (channel_plain (red_branch (x mod 2) (y mod 2)) inp x y w black rf)"
proof -
  note f = interior_facts[OF it sz(1)]
  note np = normalize_at_ok[OF lv _ _ _ _ sz]
  have n: "normalize_at inp x y w black rf = Some (sample_at_plain inp w black rf (x, y))"
    "normalize_at inp (x - 1) y w black rf = Some (sample_at_plain inp w black rf (x - 1, y))"
    "normalize_at inp (x + 1) y w black rf = Some (sample_at_plain inp w black rf (x + 1, y))"
    "normalize_at inp x (y - 1) w black rf = Some (sample_at_plain inp w black rf (x, y - 1))"
    "normalize_at inp x (y + 1) w black rf = Some (sample_at_plain inp w black rf (x, y + 1))"
    "normalize_at inp (x - 1) (y - 1) w black rf = Some (sample_at_plain inp w black rf (x - 1, y - 1))"
    "normalize_at inp (x + 1) (y - 1) w black rf = Some (sample_at_plain inp w black rf (x + 1, y - 1))"
    "normalize_at inp (x - 1) (y + 1) w black rf = Some (sample_at_plain inp w black rf (x - 1, y + 1))"
    "normalize_at inp (x + 1) (y + 1) w black rf = Some (sample_at_plain inp w black rf (x + 1, y + 1))"
    using f by (auto intro!: np)
  have par: "x mod 2 = 0 \<or> x mod 2 = 1" "y mod 2 = 0 \<or> y mod 2 = 1" by presburger+
  have rem: "c_rem x 2 = x mod 2" "c_rem y 2 = y mod 2" "c_rem (x + y) 2 = (x + y) mod 2"
    using f by (simp_all add: c_rem_2)
  show ?thesis
    using par
    by (auto simp: get_red_plain_def rem red_branch_def channel_plain_def n
        c_sub_ok[OF f(3)] c_add_ok[OF f(4)] c_sub_ok[OF f(5)] c_add_ok[OF f(6)])
qed

lemma get_green_plain_ok:
  assumes lv: "levels_ok black white" and it: "interior w h x y"
    and sz: "in_int (w * h)" "w * h \<le> int (length inp)"
  shows "get_green_plain inp x y w black rf =
           Some (channel_plain (green_branch (x mod 2) (y mod 2)) inp x y w black rf)"
proof -
  note f = interior_facts[OF it sz(1)]
  note np = normalize_at_ok[OF lv _ _ _ _ sz]
  have n: "normalize_at inp x y w black rf = Some (sample_at_plain inp w black rf (x, y))"
    "normalize_at inp (x - 1) y w black rf = Some (sample_at_plain inp w black rf (x - 1, y))"
    "normalize_at inp (x + 1) y w black rf = Some (sample_at_plain inp w black rf (x + 1, y))"
    "normalize_at inp x (y - 1) w black rf = Some (sample_at_plain inp w black rf (x, y - 1))"
    "normalize_at inp x (y + 1) w black rf = Some (sample_at_plain inp w black rf (x, y + 1))"
    "normalize_at inp (x - 1) (y - 1) w black rf = Some (sample_at_plain inp w black rf (x - 1, y - 1))"
    "normalize_at inp (x + 1) (y - 1) w black rf = Some (sample_at_plain inp w black rf (x + 1, y - 1))"
    "normalize_at inp (x - 1) (y + 1) w black rf = Some (sample_at_plain inp w black rf (x - 1, y + 1))"
    "normalize_at inp (x + 1) (y + 1) w black rf = Some (sample_at_plain inp w black rf (x + 1, y + 1))"
    using f by (auto intro!: np)
  have par: "x mod 2 = 0 \<or> x mod 2 = 1" "y mod 2 = 0 \<or> y mod 2 = 1" by presburger+
  have rem: "c_rem x 2 = x mod 2" "c_rem y 2 = y mod 2" "c_rem (x + y) 2 = (x + y) mod 2"
    using f by (simp_all add: c_rem_2)
  have g: "(x mod 2 + y mod 2) mod 2 = (x + y) mod 2" by presburger
  have par2: "(x + y) mod 2 = 0 \<or> (x + y) mod 2 = 1" by presburger
  show ?thesis
    using par2
    by (auto simp: get_green_plain_def rem green_branch_def g channel_plain_def n c_add_ok[OF f(7)]
        c_sub_ok[OF f(3)] c_add_ok[OF f(4)] c_sub_ok[OF f(5)] c_add_ok[OF f(6)])
qed

lemma get_blue_plain_ok:
  assumes lv: "levels_ok black white" and it: "interior w h x y"
    and sz: "in_int (w * h)" "w * h \<le> int (length inp)"
  shows "get_blue_plain inp x y w black rf =
           Some (channel_plain (blue_branch (x mod 2) (y mod 2)) inp x y w black rf)"
proof -
  note f = interior_facts[OF it sz(1)]
  note np = normalize_at_ok[OF lv _ _ _ _ sz]
  have n: "normalize_at inp x y w black rf = Some (sample_at_plain inp w black rf (x, y))"
    "normalize_at inp (x - 1) y w black rf = Some (sample_at_plain inp w black rf (x - 1, y))"
    "normalize_at inp (x + 1) y w black rf = Some (sample_at_plain inp w black rf (x + 1, y))"
    "normalize_at inp x (y - 1) w black rf = Some (sample_at_plain inp w black rf (x, y - 1))"
    "normalize_at inp x (y + 1) w black rf = Some (sample_at_plain inp w black rf (x, y + 1))"
    "normalize_at inp (x - 1) (y - 1) w black rf = Some (sample_at_plain inp w black rf (x - 1, y - 1))"
    "normalize_at inp (x + 1) (y - 1) w black rf = Some (sample_at_plain inp w black rf (x + 1, y - 1))"
    "normalize_at inp (x - 1) (y + 1) w black rf = Some (sample_at_plain inp w black rf (x - 1, y + 1))"
    "normalize_at inp (x + 1) (y + 1) w black rf = Some (sample_at_plain inp w black rf (x + 1, y + 1))"
    using f by (auto intro!: np)
  have par: "x mod 2 = 0 \<or> x mod 2 = 1" "y mod 2 = 0 \<or> y mod 2 = 1" by presburger+
  have rem: "c_rem x 2 = x mod 2" "c_rem y 2 = y mod 2" "c_rem (x + y) 2 = (x + y) mod 2"
    using f by (simp_all add: c_rem_2)
  show ?thesis
    using par
    by (auto simp: get_blue_plain_def rem blue_branch_def red_branch_def channel_plain_def n
        c_sub_ok[OF f(3)] c_add_ok[OF f(4)] c_sub_ok[OF f(5)] c_add_ok[OF f(6)])
qed

lemma debayer16_to_xyz_plain_interior:
  assumes lv: "levels_ok black white" and it: "interior w h x y"
    and fr: "frame_ok w h out_len" and sz: "w * h \<le> int (length inp)"
    and mt: "12 \<le> length M"
  shows "debayer16_to_xyz_plain inp out_len w h wb_r wb_g wb_b black white M x y =
           Some (stores_at (pixel_index w x y)
                   (color_transform_plain M (camera_rgb_plain inp w wb_r wb_g wb_b black white x y)))"
proof -
  note ff = frame_facts[OF fr interior_in_frame[OF it]]
  note ix = index_steps[OF fr interior_in_frame[OF it]]
  note f = interior_facts[OF it ff(1)]
  have rng: "in_int (white - black)" using lv by (simp add: levels_ok_def)
  have i: "1 \<le> x" "x < w - 1" "1 \<le> y" "y < h - 1"
    using it by (simp_all add: interior_def)
  show ?thesis
    using i ix(6,7)
    by (simp add: debayer16_to_xyz_plain_def c_sub_ok[OF f(8)] c_sub_ok[OF f(9)] c_sub_ok[OF rng]
        get_red_plain_ok[OF lv it ff(1) sz] get_green_plain_ok[OF lv it ff(1) sz]
        get_blue_plain_ok[OF lv it ff(1) sz] matrix_reads[OF mt] ix(1-5)
        write_f32_def color_transform_plain_def
        step_clamp_def step_exposure_def step_xyz_to_srgb_plain_def step_cam_to_xyz_plain_def
        affine_row_plain_def clamp01_def camera_rgb_plain_def
        Let_def)
qed

lemma debayer16_to_xyz_plain_border:
  assumes "\<not> interior w h x y" "in_int (w - 1)" "in_int (h - 1)"
  shows "debayer16_to_xyz_plain inp out_len w h wb_r wb_g wb_b black white M x y = Some []"
  using assms(1)
  by (auto simp: debayer16_to_xyz_plain_def interior_def c_sub_ok[OF assms(2)] c_sub_ok[OF assms(3)])


section \<open>Stores of a launch of the Demosaic kernel\<close>

lemma stores_to_append: "stores_to i (ws @ ws') = stores_to i ws + stores_to i ws'"
  by (simp add: stores_to_def)

lemma stores_to_Nil: "stores_to i [] = 0"
  by (simp add: stores_to_def)

lemma pixel_index_inj:
  assumes "in_frame w h x y" "in_frame w h x' y'" "0 \<le> c" "c < 3" "0 \<le> c'" "c' < 3"
    and "pixel_index w x y + c = pixel_index w x' y' + c'"
  shows "x = x' \<and> y = y' \<and> c = c'"
proof -
  from assms(7) have e: "(y * w + x) * 3 + c = (y' * w + x') * 3 + c'"
    by (simp add: pixel_index_def)
  have c: "c = c'" using e assms(3-6) by presburger
  with e have p: "y * w + x = y' * w + x'" by simp
  from assms(1,2) have b: "0 \<le> x" "x < w" "0 \<le> x'" "x' < w"
    by (simp_all add: in_frame_def)
  have "(y * w + x) div w = y" "(y' * w + x') div w = y'"
    using b by (simp_all add: div_pos_pos_trivial)
  with p have y: "y = y'" by simp
  with p have "x = x'" by simp
  with y c show ?thesis by simp
qed

lemma stores_to_stores_at:
  "stores_to i (stores_at j v) = (if i = j \<or> i = j + 1 \<or> i = j + 2 then 1 else 0)"
  by (cases v) (auto simp: stores_to_def)

text \<open>
  What one thread stores at a given component of a given pixel, for any kernel \<open>k\<close> that
  stores the three components of its own pixel when the pixel is interior and returns
  without a store otherwise.  Both variants of the Demosaic kernel are such kernels.
\<close>

lemma thread_stores_to:
  fixes k :: "int \<Rightarrow> int \<Rightarrow> store list option"
  assumes it: "interior w h x' y' \<Longrightarrow> \<exists>v. k x' y' = Some (stores_at (pixel_index w x' y') v)"
    and bd: "\<not> interior w h x' y' \<Longrightarrow> k x' y' = Some []"
    and p: "in_frame w h x y" and c: "0 \<le> c" "c < 3"
  shows "\<exists>ws. k x' y' = Some ws \<and>
           stores_to (pixel_index w x y + c) ws =
             (if interior w h x y \<and> (x', y') = (x, y) then 1 else 0)"
proof (cases "interior w h x' y'")
  case True
  from it[OF True] obtain v where k: "k x' y' = Some (stores_at (pixel_index w x' y') v)" ..
  have "(pixel_index w x y + c = pixel_index w x' y' \<or>
         pixel_index w x y + c = pixel_index w x' y' + 1 \<or>
         pixel_index w x y + c = pixel_index w x' y' + 2) \<longleftrightarrow> (x', y') = (x, y)"
    (is "?L \<longleftrightarrow> ?R")
  proof
    assume ?L
    then consider "pixel_index w x y + c = pixel_index w x' y' + 0"
      | "pixel_index w x y + c = pixel_index w x' y' + 1"
      | "pixel_index w x y + c = pixel_index w x' y' + 2"
      by auto
    then show ?R
    proof cases
      case 1
      from pixel_index_inj[OF p interior_in_frame[OF True] c _ _ 1] show ?thesis by simp
    next
      case 2
      from pixel_index_inj[OF p interior_in_frame[OF True] c _ _ 2] show ?thesis by simp
    next
      case 3
      from pixel_index_inj[OF p interior_in_frame[OF True] c _ _ 3] show ?thesis by simp
    qed
  next
    assume ?R
    then show ?L using c by auto
  qed
  then show ?thesis using k True
    by (auto simp: stores_to_stores_at)
next
  case False
  from bd[OF False] show ?thesis using False by (auto simp: stores_to_Nil)
qed

lemma launch_stores_to:
  fixes k :: "int \<Rightarrow> int \<Rightarrow> store list option"
  assumes it: "\<And>x' y'. interior w h x' y' \<Longrightarrow>
                 \<exists>v. k x' y' = Some (stores_at (pixel_index w x' y') v)"
    and bd: "\<And>x' y'. \<not> interior w h x' y' \<Longrightarrow> k x' y' = Some []"
    and p: "in_frame w h x y" and c: "0 \<le> c" "c < 3"
    and d: "distinct ts"
  shows "\<exists>ws. launch k ts = Some ws \<and>
           stores_to (pixel_index w x y + c) ws =
             (if interior w h x y \<and> (x, y) \<in> set ts then 1 else 0)"
  using d
proof (induction ts)
  case Nil
  then show ?case by (simp add: stores_to_Nil)
next
  case (Cons t ts)
  obtain x' y' where t: "t = (x', y')" by (cases t)
  from Cons obtain rest where
    r: "launch k ts = Some rest"
      "stores_to (pixel_index w x y + c) rest =
         (if interior w h x y \<and> (x, y) \<in> set ts then 1 else 0)"
    by auto
  from thread_stores_to[of w h x' y' k, OF it bd p c] obtain ws where
    w: "k x' y' = Some ws"
      "stores_to (pixel_index w x y + c) ws =
         (if interior w h x y \<and> (x', y') = (x, y) then 1 else 0)"
    by blast
  from Cons.prems t have "(x', y') \<notin> set ts" by simp
  then show ?case
    using r w t by (auto simp: stores_to_append)
qed

lemma launch_stores:
  fixes k :: "int \<Rightarrow> int \<Rightarrow> store list option"
  assumes it: "\<And>x' y'. interior w h x' y' \<Longrightarrow>
                 \<exists>v. k x' y' = Some (stores_at (pixel_index w x' y') v)"
    and bd: "\<And>x' y'. \<not> interior w h x' y' \<Longrightarrow> k x' y' = Some []"
    and fr: "frame_ok w h out_len" and d: "distinct ts"
  shows "\<exists>ws. launch k ts = Some ws \<and>
           (\<forall>x y c. in_frame w h x y \<and> 0 \<le> c \<and> c < 3 \<longrightarrow>
              stores_to (pixel_index w x y + c) ws =
                (if interior w h x y \<and> (x, y) \<in> set ts then 1 else 0)) \<and>
           (\<forall>x y. \<not> interior w h x y \<longrightarrow> k x y = Some [])"
proof -
  have b: "\<forall>x y. \<not> interior w h x y \<longrightarrow> k x y = Some []"
    using bd by blast
  have "in_frame w h 0 0" using fr by (simp add: frame_ok_def in_frame_def)
  from launch_stores_to[of w h k 0 0 0 ts, OF it bd this _ _ d]
  obtain ws where w: "launch k ts = Some ws"
    by auto
  have "stores_to (pixel_index w x y + c) ws =
          (if interior w h x y \<and> (x, y) \<in> set ts then 1 else 0)"
    if "in_frame w h x y" "0 \<le> c" "c < 3" for x y c
    using launch_stores_to[of w h k x y c ts, OF it bd that d] w by auto
  with w b show ?thesis by blast
qed

text \<open>
  C4.  In a launch of the Demosaic kernel over distinct threads, every component of a
  pixel on the border of the frame receives no store at all (the thread of such a pixel
  returns without storing), and every component of an interior pixel receives exactly one
  store if the pixel's thread is part of the launch, and none otherwise.  This holds for
  the first variant of the kernel (guard at lines 92 to 94 of the source) and for the
  second variant (guard at lines 209 to 211) alike.
\<close>

theorem border_exclusion:
  assumes "levels_ok black white" and "frame_ok w h out_len"
    and "w * h \<le> int (length inp)" and "12 \<le> length M" and "distinct ts"
  shows "(\<exists>ws. launch (debayer16_to_xyz inp out_len w h wb_r wb_g wb_b black white M) ts = Some ws \<and>
           (\<forall>x y c. in_frame w h x y \<and> 0 \<le> c \<and> c < 3 \<longrightarrow>
              stores_to (pixel_index w x y + c) ws =
                (if interior w h x y \<and> (x, y) \<in> set ts then 1 else 0)) \<and>
           (\<forall>x y. \<not> interior w h x y \<longrightarrow>
              debayer16_to_xyz inp out_len w h wb_r wb_g wb_b black white M x y = Some [])) \<and>
         (\<exists>ws. launch (debayer16_to_xyz_plain inp out_len w h wb_r wb_g wb_b black white M) ts = Some ws \<and>
           (\<forall>x y c. in_frame w h x y \<and> 0 \<le> c \<and> c < 3 \<longrightarrow>
              stores_to (pixel_index w x y + c) ws =
                (if interior w h x y \<and> (x, y) \<in> set ts then 1 else 0)) \<and>
           (\<forall>x y. \<not> interior w h x y \<longrightarrow>
              debayer16_to_xyz_plain inp out_len w h wb_r wb_g wb_b black white M x y = Some []))"
proof
  show "\<exists>ws. launch (debayer16_to_xyz inp out_len w h wb_r wb_g wb_b black white M) ts = Some ws \<and>
           (\<forall>x y c. in_frame w h x y \<and> 0 \<le> c \<and> c < 3 \<longrightarrow>
              stores_to (pixel_index w x y + c) ws =
                (if interior w h x y \<and> (x, y) \<in> set ts then 1 else 0)) \<and>
           (\<forall>x y. \<not> interior w h x y \<longrightarrow>
              debayer16_to_xyz inp out_len w h wb_r wb_g wb_b black white M x y = Some [])"
  proof (rule launch_stores[OF _ _ assms(2) assms(5)])
    fix x' y' assume "interior w h x' y'"
    from debayer16_to_xyz_interior[OF assms(1) this assms(2-4)]
    show "\<exists>v. debayer16_to_xyz inp out_len w h wb_r wb_g wb_b black white M x' y' =
               Some (stores_at (pixel_index w x' y') v)" by blast
  next
    fix x' y' assume "\<not> interior w h x' y'"
    from debayer16_to_xyz_border[OF this frame_sides[OF assms(2)]]
    show "debayer16_to_xyz inp out_len w h wb_r wb_g wb_b black white M x' y' = Some []" .
  qed
next
  show "\<exists>ws. launch (debayer16_to_xyz_plain inp out_len w h wb_r wb_g wb_b black white M) ts = Some ws \<and>
           (\<forall>x y c. in_frame w h x y \<and> 0 \<le> c \<and> c < 3 \<longrightarrow>
              stores_to (pixel_index w x y + c) ws =
                (if interior w h x y \<and> (x, y) \<in> set ts then 1 else 0)) \<and>
           (\<forall>x y. \<not> interior w h x y \<longrightarrow>
              debayer16_to_xyz_plain inp out_len w h wb_r wb_g wb_b black white M x y = Some [])"
  proof (rule launch_stores[OF _ _ assms(2) assms(5)])
    fix x' y' assume "interior w h x' y'"
    from debayer16_to_xyz_plain_interior[OF assms(1) this assms(2-4)]
    show "\<exists>v. debayer16_to_xyz_plain inp out_len w h wb_r wb_g wb_b black white M x' y' =
               Some (stores_at (pixel_index w x' y') v)" by blast
  next
    fix x' y' assume "\<not> interior w h x' y'"
    from debayer16_to_xyz_plain_border[OF this frame_sides[OF assms(2)]]
    show "debayer16_to_xyz_plain inp out_len w h wb_r wb_g wb_b black white M x' y' = Some []" .
  qed
qed

theorem border_exclusion_witness:
  "levels_ok 64 1023 \<and> frame_ok 3 3 27 \<and> 3 * 3 \<le> int (length (replicate 9 (99 :: 16 word))) \<and>
   12 \<le> length (flit 1 # replicate 11 (flit 0)) \<and>
   distinct [(0, 0), (1, 0), (2, 0), (3, 0), (0, 1), (1, 1), (2, 1), (3, 1),
             (0, 2), (1, 2), (2, 2), (3, 2) :: int \<times> int] \<and>
   (\<exists>ws. launch (debayer16_to_xyz (replicate 9 99) 27 3 3 (flit 1) (flit 1) (flit 1) 64 1023
              (flit 1 # replicate 11 (flit 0)))
            [(0, 0), (1, 0), (2, 0), (3, 0), (0, 1), (1, 1), (2, 1), (3, 1),
             (0, 2), (1, 2), (2, 2), (3, 2)] = Some ws \<and>
      stores_to (pixel_index 3 1 1 + 0) ws = 1 \<and>
      stores_to (pixel_index 3 1 1 + 1) ws = 1 \<and>
      stores_to (pixel_index 3 1 1 + 2) ws = 1 \<and>
      stores_to (pixel_index 3 0 1 + 0) ws = 0 \<and>
      stores_to (pixel_index 3 2 2 + 2) ws = 0) \<and>
   (\<exists>ws. launch (debayer16_to_xyz_plain (replicate 9 99) 27 3 3 (flit 1) (flit 1) (flit 1) 64 1023
              (flit 1 # replicate 11 (flit 0)))
            [(0, 0), (1, 0), (2, 0), (3, 0), (0, 1), (1, 1), (2, 1), (3, 1),
             (0, 2), (1, 2), (2, 2), (3, 2)] = Some ws \<and>
      stores_to (pixel_index 3 1 1 + 0) ws = 1 \<and>
      stores_to (pixel_index 3 1 1 + 1) ws = 1 \<and>
      stores_to (pixel_index 3 1 1 + 2) ws = 1 \<and>
      stores_to (pixel_index 3 0 1 + 0) ws = 0 \<and>
      stores_to (pixel_index 3 2 2 + 2) ws = 0) \<and>
   debayer16_to_xyz (replicate 9 99) 27 3 3 (flit 1) (flit 1) (flit 1) 64 1023
     (flit 1 # replicate 11 (flit 0)) 0 1 = Some [] \<and>
   debayer16_to_xyz_plain (replicate 9 99) 27 3 3 (flit 1) (flit 1) (flit 1) 64 1023
     (flit 1 # replicate 11 (flit 0)) 2 2 = Some []"
proof -
  have h1: "levels_ok 64 1023" by (simp add: levels_ok_def in_int_def)
  have h2: "frame_ok 3 3 27" by (simp add: frame_ok_def in_int_def)
  have h3: "3 * 3 \<le> int (length (replicate 9 (99 :: 16 word)))" by simp
  have h4: "12 \<le> length (flit 1 # replicate 11 (flit 0))" by simp
  have h5: "distinct [(0, 0), (1, 0), (2, 0), (3, 0), (0, 1), (1, 1), (2, 1), (3, 1),
             (0, 2), (1, 2), (2, 2), (3, 2) :: int \<times> int]" by simp
  note t = border_exclusion[OF h1 h2 h3 h4 h5, of "flit 1" "flit 1" "flit 1"]
  from t obtain ws where
    w: "launch (debayer16_to_xyz (replicate 9 99) 27 3 3 (flit 1) (flit 1) (flit 1) 64 1023
              (flit 1 # replicate 11 (flit 0)))
            [(0, 0), (1, 0), (2, 0), (3, 0), (0, 1), (1, 1), (2, 1), (3, 1),
             (0, 2), (1, 2), (2, 2), (3, 2)] = Some ws"
    and a: "\<And>x y c. in_frame 3 3 x y \<Longrightarrow> 0 \<le> c \<Longrightarrow> c < 3 \<Longrightarrow>
              stores_to (pixel_index 3 x y + c) ws =
                (if interior 3 3 x y \<and> (x, y) \<in> set [(0, 0), (1, 0), (2, 0), (3, 0), (0, 1), (1, 1), (2, 1), (3, 1),
             (0, 2), (1, 2), (2, 2), (3, 2)] then 1 else 0)"
    and b: "\<And>x y. \<not> interior 3 3 x y \<Longrightarrow>
              debayer16_to_xyz (replicate 9 99) 27 3 3 (flit 1) (flit 1) (flit 1) 64 1023
                (flit 1 # replicate 11 (flit 0)) x y = Some []"
    by blast
  from t obtain ws' where
    w': "launch (debayer16_to_xyz_plain (replicate 9 99) 27 3 3 (flit 1) (flit 1) (flit 1) 64 1023
              (flit 1 # replicate 11 (flit 0)))
            [(0, 0), (1, 0), (2, 0), (3, 0), (0, 1), (1, 1), (2, 1), (3, 1),
             (0, 2), (1, 2), (2, 2), (3, 2)] = Some ws'"
    and a': "\<And>x y c. in_frame 3 3 x y \<Longrightarrow> 0 \<le> c \<Longrightarrow> c < 3 \<Longrightarrow>
              stores_to (pixel_index 3 x y + c) ws' =
                (if interior 3 3 x y \<and> (x, y) \<in> set [(0, 0), (1, 0), (2, 0), (3, 0), (0, 1), (1, 1), (2, 1), (3, 1),
             (0, 2), (1, 2), (2, 2), (3, 2)] then 1 else 0)"
    and b': "\<And>x y. \<not> interior 3 3 x y \<Longrightarrow>
              debayer16_to_xyz_plain (replicate 9 99) 27 3 3 (flit 1) (flit 1) (flit 1) 64 1023
                (flit 1 # replicate 11 (flit 0)) x y = Some []"
    by blast
  have s: "stores_to (pixel_index 3 1 1 + 0) ws = 1" "stores_to (pixel_index 3 1 1 + 1) ws = 1"
    "stores_to (pixel_index 3 1 1 + 2) ws = 1" "stores_to (pixel_index 3 0 1 + 0) ws = 0"
    "stores_to (pixel_index 3 2 2 + 2) ws = 0"
    by (subst a; simp add: in_frame_def interior_def)+
  have s': "stores_to (pixel_index 3 1 1 + 0) ws' = 1" "stores_to (pixel_index 3 1 1 + 1) ws' = 1"
    "stores_to (pixel_index 3 1 1 + 2) ws' = 1" "stores_to (pixel_index 3 0 1 + 0) ws' = 0"
    "stores_to (pixel_index 3 2 2 + 2) ws' = 0"
    by (subst a'; simp add: in_frame_def interior_def)+
  have e: "debayer16_to_xyz (replicate 9 99) 27 3 3 (flit 1) (flit 1) (flit 1) 64 1023
     (flit 1 # replicate 11 (flit 0)) 0 1 = Some []"
    by (rule b) (simp add: interior_def)
  have e': "debayer16_to_xyz_plain (replicate 9 99) 27 3 3 (flit 1) (flit 1) (flit 1) 64 1023
     (flit 1 # replicate 11 (flit 0)) 2 2 = Some []"
    by (rule b') (simp add: interior_def)
  from w s w' s' e e' h1 h2 h3 h4 h5 show ?thesis by blast
qed


section \<open>The two variants of the Demosaic kernel\<close>


















section \<open>Accuracy of the Normalization stage\<close>




lemma pow2_m126: "k \<ge> - 126 \<Longrightarrow> pow2 (- 126) \<le> pow2 k"
  by (rule pow2_mono)






end
